theory Spec2Isabelle
  imports Main
begin

section \<open>Data model\<close>

text \<open>
  A raw record is one row of the provider's answer, a dictionary with the keys
  \<^verbatim>\<open>id\<close>, \<^verbatim>\<open>source\<close>, \<^verbatim>\<open>type\<close>, \<^verbatim>\<open>ttl\<close> and \<^verbatim>\<open>target\<close>. The id is kept as the text that
  the f-string of \<^verbatim>\<open>record_delete\<close> puts into the path.
\<close>

record raw_record =
  r_id :: string
  r_source :: string
  r_type :: string
  r_ttl :: int
  r_target :: string

text \<open>The dictionary built by \<^verbatim>\<open>_params_for_generic\<close> and \<^verbatim>\<open>_params_for_multiple\<close>.\<close>

record params =
  p_target :: string
  p_source :: string
  p_ttl :: int
  p_type :: string

text \<open>The dictionary built by \<^verbatim>\<open>_data_for_generic\<close>: it has a \<^verbatim>\<open>value\<close> key, never \<^verbatim>\<open>values\<close>.\<close>

record data =
  d_ttl :: int
  d_type :: string
  d_value :: string

text \<open>
  The name and the data dictionary populate passes to \<^verbatim>\<open>Record.new\<close>, which make the record
  it then passes to \<^verbatim>\<open>zone.add_record\<close>.
\<close>

record new_record =
  nr_name :: string
  nr_data :: data

text \<open>
  octodns builds a record with values from a \<^verbatim>\<open>value\<close> key as the one-element list of
  that value; \<open>values_of\<close> is that reading of the data dictionary.
\<close>

definition values_of :: "new_record \<Rightarrow> string list" where
  "values_of a = [d_value (nr_data a)]"

text \<open>
  A desired record as the change handlers read it: \<^verbatim>\<open>zone.name\<close>, \<^verbatim>\<open>name\<close>, \<^verbatim>\<open>_type\<close>,
  \<^verbatim>\<open>ttl\<close>, and either the attribute \<^verbatim>\<open>value\<close> or the attribute \<^verbatim>\<open>values\<close>.
\<close>

datatype rvalue = Value string | Values "string list"

record desired_record =
  zone_name :: string
  name :: string
  rtype :: string
  ttl :: int
  rvalue :: rvalue

datatype change =
    Create desired_record
  | Update desired_record desired_record
  | Delete desired_record

record plan =
  desired_name :: string
  changes :: "change list"

datatype error =
    InfomaniakClientBadRequest
  | InfomaniakClientUnauthorized
  | HTTPError nat
  | JSONDecodeError
  | KeyError
  | AttributeError
  | IndexError
  | ValidationError
  | DuplicateRecordException

text \<open>\<^verbatim>\<open>except InfomaniakClientException\<close> catches the two subclasses and nothing else.\<close>

fun is_InfomaniakClientException :: "error \<Rightarrow> bool" where
  "is_InfomaniakClientException InfomaniakClientBadRequest = True"
| "is_InfomaniakClientException InfomaniakClientUnauthorized = True"
| "is_InfomaniakClientException _ = False"

section \<open>The HTTP session\<close>

datatype http_method = GET | POST | DELETE

record request =
  req_method :: http_method
  req_path :: string
  req_json :: "params option"

text \<open>
  The decoded body: \<open>NotJson\<close> when \<^verbatim>\<open>res.json()\<close> raises, otherwise the \<^verbatim>\<open>data\<close> entry
  of the object, \<open>None\<close> when the key is missing.
\<close>

datatype body = NotJson | Json "raw_record list option"

record response =
  status_code :: nat
  body :: body

text \<open>
  The session is a parameter: a function from the state of the remote side and a request to
  a response and the next remote state.
\<close>

type_synonym 'w session = "'w \<Rightarrow> request \<Rightarrow> response \<times> 'w"

text \<open>
  The provider object: the dictionary \<^verbatim>\<open>_zone_records\<close>, the remote side behind the
  session, and the requests passed to \<^verbatim>\<open>self._sess.request\<close> so far, oldest first.
\<close>

record 'w provider =
  zone_cache :: "string \<rightharpoonup> raw_record list"
  remote :: 'w
  sent :: "request list"

section \<open>InfomaniakClient\<close>

definition BASE_path_records :: "string \<Rightarrow> string" where
  "BASE_path_records domain_name = ''/1/domain/'' @ domain_name @ ''/dns/record''"

text \<open>
  \<^verbatim>\<open>_request\<close>: 400 and 401 raise the client's own exceptions; \<^verbatim>\<open>raise_for_status\<close> of
  the requests library raises its HTTPError for the other statuses from 400 to 599; then
  the body is decoded.
\<close>

definition request :: "'w session \<Rightarrow> 'w provider \<Rightarrow> http_method \<Rightarrow> string \<Rightarrow> params option
    \<Rightarrow> (error + raw_record list option) \<times> 'w provider" where
  "request sess st method path dat =
     (let rq = \<lparr>req_method = method, req_path = path, req_json = dat\<rparr>;
          (res, w) = sess (remote st) rq;
          st' = st\<lparr>remote := w, sent := sent st @ [rq]\<rparr>
      in if status_code res = 400 then (Inl InfomaniakClientBadRequest, st')
         else if status_code res = 401 then (Inl InfomaniakClientUnauthorized, st')
         else if 400 \<le> status_code res \<and> status_code res < 600
           then (Inl (HTTPError (status_code res)), st')
         else (case body res of
                 NotJson \<Rightarrow> (Inl JSONDecodeError, st')
               | Json d \<Rightarrow> (Inr d, st')))"

definition rstrip_dot :: "string \<Rightarrow> string" where
  "rstrip_dot s = rev (dropWhile (\<lambda>c. c = CHR ''.'') (rev s))"

definition records :: "'w session \<Rightarrow> 'w provider \<Rightarrow> string
    \<Rightarrow> (error + raw_record list) \<times> 'w provider" where
  "records sess st domain_name =
     (case request sess st GET (BASE_path_records (rstrip_dot domain_name)) None of
        (Inl e, st') \<Rightarrow> (Inl e, st')
      | (Inr None, st') \<Rightarrow> (Inl KeyError, st')
      | (Inr (Some rows), st') \<Rightarrow> (Inr rows, st'))"

definition record_create :: "'w session \<Rightarrow> 'w provider \<Rightarrow> string \<Rightarrow> params
    \<Rightarrow> (error + unit) \<times> 'w provider" where
  "record_create sess st domain_name ps =
     (case request sess st POST (BASE_path_records domain_name) (Some ps) of
        (Inl e, st') \<Rightarrow> (Inl e, st')
      | (Inr _, st') \<Rightarrow> (Inr (), st'))"

definition record_delete :: "'w session \<Rightarrow> 'w provider \<Rightarrow> string \<Rightarrow> string
    \<Rightarrow> (error + unit) \<times> 'w provider" where
  "record_delete sess st domain_name record_id =
     (case request sess st DELETE (BASE_path_records domain_name @ ''/'' @ record_id) None of
        (Inl e, st') \<Rightarrow> (Inl e, st')
      | (Inr _, st') \<Rightarrow> (Inr (), st'))"

section \<open>InfomaniakProvider: the cache and populate\<close>

definition SUPPORTS :: "string set" where
  "SUPPORTS = {''A'', ''AAAA'', ''CNAME''}"

text \<open>
  \<^verbatim>\<open>zone_records\<close>: on a miss the fetch is made for \<^verbatim>\<open>zone.name[:-1]\<close>; a client exception
  is answered by the empty list without storing anything, any other exception passes.
\<close>

definition zone_records :: "'w session \<Rightarrow> 'w provider \<Rightarrow> string
    \<Rightarrow> (error + raw_record list) \<times> 'w provider" where
  "zone_records sess st zname =
     (case zone_cache st zname of
        Some rows \<Rightarrow> (Inr rows, st)
      | None \<Rightarrow>
          (case records sess st (butlast zname) of
             (Inr rows, st') \<Rightarrow>
               (Inr rows, st'\<lparr>zone_cache := (zone_cache st')(zname \<mapsto> rows)\<rparr>)
           | (Inl e, st') \<Rightarrow>
               if is_InfomaniakClientException e then (Inr [], st') else (Inl e, st')))"

text \<open>
  \<^verbatim>\<open>values = defaultdict(lambda: defaultdict(list))\<close>: both levels keep the order in which
  their keys were first seen, so they are association lists; \<open>append_type\<close> and
  \<open>append_name\<close> are \<^verbatim>\<open>values[_name][_type].append(record)\<close>.
\<close>

type_synonym types = "(string \<times> raw_record list) list"
type_synonym names = "(string \<times> types) list"

fun append_type :: "string \<Rightarrow> raw_record \<Rightarrow> types \<Rightarrow> types" where
  "append_type t r [] = [(t, [r])]"
| "append_type t r ((t', rs) # ts) =
     (if t' = t then (t', rs @ [r]) # ts else (t', rs) # append_type t r ts)"

fun append_name :: "string \<Rightarrow> string \<Rightarrow> raw_record \<Rightarrow> names \<Rightarrow> names" where
  "append_name n t r [] = [(n, [(t, [r])])]"
| "append_name n t r ((n', ts) # vs) =
     (if n' = n then (n', append_type t r ts) # vs else (n', ts) # append_name n t r vs)"

text \<open>The first loop of populate; a warning is the pair of the type and the name skipped.\<close>

fun group_records :: "raw_record list \<Rightarrow> names \<Rightarrow> (string \<times> string) list
    \<Rightarrow> names \<times> (string \<times> string) list" where
  "group_records [] vs ws = (vs, ws)"
| "group_records (r # rs) vs ws =
     (if r_type r \<notin> SUPPORTS then group_records rs vs (ws @ [(r_type r, r_source r)])
      else group_records rs (append_name (r_source r) (r_type r) r vs) ws)"

definition data_for_generic :: "string \<Rightarrow> raw_record list \<Rightarrow> error + data" where
  "data_for_generic t rs =
     (case rs of
        [] \<Rightarrow> Inl IndexError
      | r # _ \<Rightarrow> Inr \<lparr>d_ttl = r_ttl r, d_type = t, d_value = r_target r\<rparr>)"

text \<open>\<^verbatim>\<open>getattr(self, f"_data_for_{_type}")\<close>: the attributes of that shape the class has.\<close>

definition data_for :: "string \<Rightarrow> (string \<Rightarrow> raw_record list \<Rightarrow> error + data) option" where
  "data_for t =
     (if t = ''A'' \<or> t = ''AAAA'' \<or> t = ''CNAME'' \<or> t = ''generic''
      then Some data_for_generic else None)"

text \<open>
  \<^verbatim>\<open>Record.new(zone, name, data, source=self, lenient=lenient)\<close> followed by
  \<^verbatim>\<open>zone.add_record(record, lenient=lenient)\<close>: both belong to octodns and either may raise
  (a validation error, a duplicate record). Like the session, the zone container is a
  parameter: a function from the state of the zone and the record offered to what the two
  calls return or raise and the next state of the zone.
\<close>

type_synonym 'z container = "'z \<Rightarrow> new_record \<Rightarrow> (error + unit) \<times> 'z"

text \<open>
  The second loop of populate. The inner loop assigns to the loop variable \<^verbatim>\<open>name\<close>, which
  keeps the new value for the later types of the same name. The loop carries the zone and
  the records the container has taken so far; an exception ends it where it is raised.
\<close>

fun add_types :: "'z container \<Rightarrow> string \<Rightarrow> types \<Rightarrow> 'z \<Rightarrow> new_record list
    \<Rightarrow> (error + unit) \<times> 'z \<times> new_record list" where
  "add_types cont n [] zone acc = (Inr (), zone, acc)"
| "add_types cont n ((t, rs) # ts) zone acc =
     (case data_for t of
        None \<Rightarrow> (Inl AttributeError, zone, acc)
      | Some f \<Rightarrow>
          (let n' = (if n = ''.'' then '''' else n)
           in case f t rs of
                Inl e \<Rightarrow> (Inl e, zone, acc)
              | Inr d \<Rightarrow>
                  (case cont zone \<lparr>nr_name = n', nr_data = d\<rparr> of
                     (Inl e, zone') \<Rightarrow> (Inl e, zone', acc)
                   | (Inr _, zone') \<Rightarrow>
                       add_types cont n' ts zone' (acc @ [\<lparr>nr_name = n', nr_data = d\<rparr>]))))"

fun add_names :: "'z container \<Rightarrow> names \<Rightarrow> 'z \<Rightarrow> new_record list
    \<Rightarrow> (error + unit) \<times> 'z \<times> new_record list" where
  "add_names cont [] zone acc = (Inr (), zone, acc)"
| "add_names cont ((n, ts) # vs) zone acc =
     (case add_types cont n ts zone acc of
        (Inl e, zone', acc') \<Rightarrow> (Inl e, zone', acc')
      | (Inr _, zone', acc') \<Rightarrow> add_names cont vs zone' acc')"

text \<open>
  What a call of populate leaves behind: what it returns or raises, the records the zone
  container took from it, its warnings, and the zone.
\<close>

record 'z populated =
  ret :: "error + bool"
  added :: "new_record list"
  warnings :: "(string \<times> string) list"
  zone_after :: 'z

text \<open>
  \<^verbatim>\<open>populate\<close>: the cache access, the two loops, the membership test, and the call
  \<^verbatim>\<open>self._client.records(zone.name)\<close> among the arguments of the last log message.
  The arguments \<^verbatim>\<open>target\<close> and \<^verbatim>\<open>lenient\<close> are only logged or passed on to octodns, and
  \<^verbatim>\<open>before = len(zone.records)\<close> is only read for the log message, so they are left out.
\<close>

definition populate :: "'w session \<Rightarrow> 'z container \<Rightarrow> 'w provider \<Rightarrow> string \<Rightarrow> 'z
    \<Rightarrow> 'z populated \<times> 'w provider" where
  "populate sess cont st zname zone =
     (case zone_records sess st zname of
        (Inl e, st1) \<Rightarrow>
          (\<lparr>ret = Inl e, added = [], warnings = [], zone_after = zone\<rparr>, st1)
      | (Inr rows, st1) \<Rightarrow>
          (let (vs, ws) = group_records rows [] []
           in case add_names cont vs zone [] of
                (Inl e, zone', acc) \<Rightarrow>
                  (\<lparr>ret = Inl e, added = acc, warnings = ws, zone_after = zone'\<rparr>, st1)
              | (Inr _, zone', acc) \<Rightarrow>
                  (let exists = (zone_cache st1 zname \<noteq> None)
                   in case records sess st1 zname of
                        (Inl e, st2) \<Rightarrow>
                          (\<lparr>ret = Inl e, added = acc, warnings = ws, zone_after = zone'\<rparr>, st2)
                      | (Inr _, st2) \<Rightarrow>
                          (\<lparr>ret = Inr exists, added = acc, warnings = ws,
                            zone_after = zone'\<rparr>, st2))))"

section \<open>InfomaniakProvider: apply\<close>

definition params_for_generic :: "desired_record \<Rightarrow> error + params list" where
  "params_for_generic r =
     (case rvalue r of
        Value v \<Rightarrow>
          Inr [\<lparr>p_target = v, p_source = name r, p_ttl = ttl r, p_type = rtype r\<rparr>]
      | Values _ \<Rightarrow> Inl AttributeError)"

definition params_for_multiple :: "desired_record \<Rightarrow> error + params list" where
  "params_for_multiple r =
     (case rvalue r of
        Values vs \<Rightarrow>
          Inr (map (\<lambda>v. \<lparr>p_target = v, p_source = name r, p_ttl = ttl r, p_type = rtype r\<rparr>) vs)
      | Value _ \<Rightarrow> Inl AttributeError)"

text \<open>\<^verbatim>\<open>getattr(self, f"_params_for_{new._type}")\<close>.\<close>

definition params_for :: "string \<Rightarrow> (desired_record \<Rightarrow> error + params list) option" where
  "params_for t =
     (if t = ''A'' \<or> t = ''AAAA'' \<or> t = ''multiple'' then Some params_for_multiple
      else if t = ''CNAME'' \<or> t = ''generic'' then Some params_for_generic
      else None)"

fun create_each :: "'w session \<Rightarrow> 'w provider \<Rightarrow> string \<Rightarrow> params list
    \<Rightarrow> (error + unit) \<times> 'w provider" where
  "create_each sess st dn [] = (Inr (), st)"
| "create_each sess st dn (p # ps) =
     (case record_create sess st dn p of
        (Inl e, st') \<Rightarrow> (Inl e, st')
      | (Inr _, st') \<Rightarrow> create_each sess st' dn ps)"

text \<open>The two steps \<^verbatim>\<open>params_for = getattr(...)\<close> and \<^verbatim>\<open>params_for(new)\<close> of \<^verbatim>\<open>_apply_create\<close>.\<close>

definition expand :: "desired_record \<Rightarrow> error + params list" where
  "expand new =
     (case params_for (rtype new) of
        None \<Rightarrow> Inl AttributeError
      | Some f \<Rightarrow> f new)"

definition apply_create :: "'w session \<Rightarrow> 'w provider \<Rightarrow> desired_record
    \<Rightarrow> (error + unit) \<times> 'w provider" where
  "apply_create sess st new =
     (case expand new of
        Inl e \<Rightarrow> (Inl e, st)
      | Inr ps \<Rightarrow> create_each sess st (butlast (zone_name new)) ps)"

fun delete_each :: "'w session \<Rightarrow> 'w provider \<Rightarrow> desired_record \<Rightarrow> raw_record list
    \<Rightarrow> (error + unit) \<times> 'w provider" where
  "delete_each sess st existing [] = (Inr (), st)"
| "delete_each sess st existing (r # rs) =
     (if name existing = r_source r \<and> rtype existing = r_type r
      then (case record_delete sess st (butlast (zone_name existing)) (r_id r) of
              (Inl e, st') \<Rightarrow> (Inl e, st')
            | (Inr _, st') \<Rightarrow> delete_each sess st' existing rs)
      else delete_each sess st existing rs)"

text \<open>
  \<^verbatim>\<open>_apply_delete\<close> assigns to \<^verbatim>\<open>existing.name\<close>, an attribute of the caller's record, so
  the handlers return the record as they leave it.
\<close>

definition apply_delete :: "'w session \<Rightarrow> 'w provider \<Rightarrow> desired_record
    \<Rightarrow> (error + unit) \<times> desired_record \<times> 'w provider" where
  "apply_delete sess st existing0 =
     (let existing = (if name existing0 = '''' then existing0\<lparr>name := ''.''\<rparr> else existing0)
      in case zone_records sess st (zone_name existing) of
           (Inl e, st1) \<Rightarrow> (Inl e, existing, st1)
         | (Inr rows, st1) \<Rightarrow>
             (case delete_each sess st1 existing rows of
                (r, st2) \<Rightarrow> (r, existing, st2)))"

text \<open>The three handlers, chosen by the lower-cased class name of the change.\<close>

fun apply_change :: "'w session \<Rightarrow> 'w provider \<Rightarrow> change
    \<Rightarrow> (error + unit) \<times> change \<times> 'w provider" where
  "apply_change sess st (Create new) =
     (case apply_create sess st new of (r, st') \<Rightarrow> (r, Create new, st'))"
| "apply_change sess st (Delete existing) =
     (case apply_delete sess st existing of (r, existing', st') \<Rightarrow> (r, Delete existing', st'))"
| "apply_change sess st (Update existing new) =
     (case apply_delete sess st existing of
        (Inl e, existing', st1) \<Rightarrow> (Inl e, Update existing' new, st1)
      | (Inr _, existing', st1) \<Rightarrow>
          (case apply_create sess st1 new of (r, st2) \<Rightarrow> (r, Update existing' new, st2)))"

fun apply_changes :: "'w session \<Rightarrow> 'w provider \<Rightarrow> change list
    \<Rightarrow> (error + unit) \<times> change list \<times> 'w provider" where
  "apply_changes sess st [] = (Inr (), [], st)"
| "apply_changes sess st (c # cs) =
     (case apply_change sess st c of
        (Inl e, c', st1) \<Rightarrow> (Inl e, c' # cs, st1)
      | (Inr _, c', st1) \<Rightarrow>
          (case apply_changes sess st1 cs of (r, cs', st2) \<Rightarrow> (r, c' # cs', st2)))"

text \<open>
  \<^verbatim>\<open>_apply\<close>: the loop over the changes, then \<^verbatim>\<open>self._zone_records.pop(desired.name, None)\<close>.
  The pop is the statement after the loop, so an exception in the loop leaves it out.
  (\<open>apply\<close> is a command of the proof language, hence the name \<open>apply_plan\<close>.)
\<close>

definition apply_plan :: "'w session \<Rightarrow> 'w provider \<Rightarrow> plan
    \<Rightarrow> (error + unit) \<times> change list \<times> 'w provider" where
  "apply_plan sess st p =
     (case apply_changes sess st (changes p) of
        (Inl e, cs', st1) \<Rightarrow> (Inl e, cs', st1)
      | (Inr _, cs', st1) \<Rightarrow>
          (Inr (), cs', st1\<lparr>zone_cache := (zone_cache st1)(desired_name p := None)\<rparr>))"

section \<open>Vocabulary of the statements\<close>

text \<open>The requests the three client methods pass to the session.\<close>

definition fetch_request :: "string \<Rightarrow> request" where
  "fetch_request domain_name =
     \<lparr>req_method = GET, req_path = BASE_path_records (rstrip_dot domain_name), req_json = None\<rparr>"

definition create_request :: "string \<Rightarrow> params \<Rightarrow> request" where
  "create_request domain_name ps =
     \<lparr>req_method = POST, req_path = BASE_path_records domain_name, req_json = Some ps\<rparr>"

definition delete_request :: "string \<Rightarrow> string \<Rightarrow> request" where
  "delete_request domain_name record_id =
     \<lparr>req_method = DELETE, req_path = BASE_path_records domain_name @ ''/'' @ record_id,
      req_json = None\<rparr>"

text \<open>
  What the second loop of populate builds from well-formed groups: the name with the apex
  rewritten, and the data of the first row of each group.
\<close>

definition apex_name :: "string \<Rightarrow> string" where
  "apex_name n = (if n = ''.'' then '''' else n)"

definition new_of :: "string \<Rightarrow> string \<times> raw_record list \<Rightarrow> new_record" where
  "new_of n g =
     \<lparr>nr_name = apex_name n,
      nr_data = \<lparr>d_ttl = r_ttl (hd (snd g)), d_type = fst g, d_value = r_target (hd (snd g))\<rparr>\<rparr>"

definition expected :: "names \<Rightarrow> new_record list" where
  "expected vs = concat (map (\<lambda>(n, ts). map (new_of n) ts) vs)"

definition name_types :: "names \<Rightarrow> (string \<times> string) list" where
  "name_types vs = concat (map (\<lambda>(n, ts). map (\<lambda>g. (n, fst g)) ts) vs)"

text \<open>The invariant of the first loop: every group has a supported type and a first row.\<close>

definition wf_types :: "types \<Rightarrow> bool" where
  "wf_types ts = list_all (\<lambda>g. fst g \<in> SUPPORTS \<and> snd g \<noteq> []) ts"

definition wf_names :: "names \<Rightarrow> bool" where
  "wf_names vs = list_all (\<lambda>e. wf_types (snd e)) vs"

text \<open>
  The records the second loop of populate offers to the zone container, in its order, from
  the rows the first loop is given.
\<close>

definition candidates :: "raw_record list \<Rightarrow> new_record list" where
  "candidates rows = expected (fst (group_records rows [] []))"

text \<open>
  A loop that makes one call per element, in order, and ends at the first call that
  raises, described from outside. \<open>answers\<close> are what the calls get when made one after the
  other, \<open>after_all\<close> is the state after them, \<open>accepted\<close> counts the calls that return
  before the first that raises, \<open>attempted\<close> are the elements whose call is made (those and
  the one that raises), and \<open>outcome\<close> is what the loop returns or raises.
\<close>

fun answers :: "('s \<Rightarrow> 'a \<Rightarrow> (error + unit) \<times> 's) \<Rightarrow> 's \<Rightarrow> 'a list \<Rightarrow> (error + unit) list" where
  "answers step s [] = []"
| "answers step s (x # xs) = fst (step s x) # answers step (snd (step s x)) xs"

definition after_all :: "('s \<Rightarrow> 'a \<Rightarrow> (error + unit) \<times> 's) \<Rightarrow> 's \<Rightarrow> 'a list \<Rightarrow> 's" where
  "after_all step s xs = foldl (\<lambda>s' x. snd (step s' x)) s xs"

definition accepted :: "('s \<Rightarrow> 'a \<Rightarrow> (error + unit) \<times> 's) \<Rightarrow> 's \<Rightarrow> 'a list \<Rightarrow> nat" where
  "accepted step s xs = length (takeWhile (\<lambda>a. a = Inr ()) (answers step s xs))"

definition attempted :: "('s \<Rightarrow> 'a \<Rightarrow> (error + unit) \<times> 's) \<Rightarrow> 's \<Rightarrow> 'a list \<Rightarrow> 'a list" where
  "attempted step s xs = take (Suc (accepted step s xs)) xs"

definition outcome :: "('s \<Rightarrow> 'a \<Rightarrow> (error + unit) \<times> 's) \<Rightarrow> 's \<Rightarrow> 'a list \<Rightarrow> error + unit" where
  "outcome step s xs =
     (if accepted step s xs = length xs then Inr ()
      else answers step s xs ! accepted step s xs)"

text \<open>The calls of the two handlers as steps: one POST for a parameter object, one DELETE for a row.\<close>

definition post_step :: "'w session \<Rightarrow> string \<Rightarrow> 'w provider \<Rightarrow> params
    \<Rightarrow> (error + unit) \<times> 'w provider" where
  "post_step sess dn st p = record_create sess st dn p"

definition delete_step :: "'w session \<Rightarrow> string \<Rightarrow> 'w provider \<Rightarrow> raw_record
    \<Rightarrow> (error + unit) \<times> 'w provider" where
  "delete_step sess dn st r = record_delete sess st dn (r_id r)"

section \<open>A remote side to run the code against\<close>

text \<open>
  The remote service is not part of the repository. For the concrete runs below it is a
  provider with one zone that behaves as the remote API is specified: GET answers the
  stored rows under \<^verbatim>\<open>data\<close>, POST stores one more row with a fresh id, DELETE removes the
  row whose id ends the path. It answers the coming requests from a list of scripted
  statuses first (an entry 200 lets the request through), which is how a run meets a
  failing call. The general theorems do not use it: they hold for every session.
\<close>

record remote_zone =
  stored :: "raw_record list"
  next_id :: nat
  scripted :: "nat list"

fun show_nat :: "nat \<Rightarrow> string" where
  "show_nat n =
     (if n < 10 then [''0123456789'' ! n]
      else show_nat (n div 10) @ [''0123456789'' ! (n mod 10)])"

declare show_nat.simps [simp del]

definition last_segment :: "string \<Rightarrow> string" where
  "last_segment path = rev (takeWhile (\<lambda>c. c \<noteq> CHR ''/'') (rev path))"

definition serve :: "remote_zone \<Rightarrow> request \<Rightarrow> response \<times> remote_zone" where
  "serve w rq =
     (case req_method rq of
        GET \<Rightarrow> (\<lparr>status_code = 200, body = Json (Some (stored w))\<rparr>, w)
      | POST \<Rightarrow>
          (case req_json rq of
             None \<Rightarrow> (\<lparr>status_code = 400, body = NotJson\<rparr>, w)
           | Some p \<Rightarrow>
               (\<lparr>status_code = 200, body = Json None\<rparr>,
                w\<lparr>stored := stored w @
                      [\<lparr>r_id = show_nat (next_id w), r_source = p_source p, r_type = p_type p,
                        r_ttl = p_ttl p, r_target = p_target p\<rparr>],
                  next_id := Suc (next_id w)\<rparr>))
      | DELETE \<Rightarrow>
          (\<lparr>status_code = 200, body = Json None\<rparr>,
           w\<lparr>stored := filter (\<lambda>r. r_id r \<noteq> last_segment (req_path rq)) (stored w)\<rparr>))"

definition remote_session :: "remote_zone session" where
  "remote_session w rq =
     (case scripted w of
        [] \<Rightarrow> serve w rq
      | s # ss \<Rightarrow>
          if s = 200 then serve (w\<lparr>scripted := ss\<rparr>) rq
          else (\<lparr>status_code = s, body = NotJson\<rparr>, w\<lparr>scripted := ss\<rparr>))"

text \<open>
  The zone container is not part of the repository either. For the concrete runs it is the
  list of the records taken so far, refusing a second record of the same name and type as
  \<^verbatim>\<open>add_record\<close> of octodns does; it validates nothing else. The general theorems hold for
  every container.
\<close>

definition zone_add :: "new_record list container" where
  "zone_add zone a =
     (if list_ex (\<lambda>b. nr_name b = nr_name a \<and> d_type (nr_data b) = d_type (nr_data a)) zone
      then (Inl DuplicateRecordException, zone)
      else (Inr (), zone @ [a]))"

text \<open>A provider object just constructed, in front of a remote side with the given rows.\<close>

definition fresh :: "raw_record list \<Rightarrow> nat list \<Rightarrow> remote_zone provider" where
  "fresh rs ss =
     \<lparr>zone_cache = Map.empty, remote = \<lparr>stored = rs, next_id = 1, scripted = ss\<rparr>, sent = []\<rparr>"

definition www_A :: desired_record where
  "www_A = \<lparr>zone_name = ''example.com.'', name = ''www'', rtype = ''A'', ttl = 300,
            rvalue = Values [''1.1.1.1'', ''2.2.2.2'']\<rparr>"

definition www_CNAME :: desired_record where
  "www_CNAME = \<lparr>zone_name = ''example.com.'', name = ''www'', rtype = ''CNAME'', ttl = 600,
                rvalue = Value ''example.com.''\<rparr>"

definition apex_A :: desired_record where
  "apex_A = \<lparr>zone_name = ''example.com.'', name = '''', rtype = ''A'', ttl = 300,
             rvalue = Values [''1.1.1.1'']\<rparr>"

definition apex_row :: raw_record where
  "apex_row = \<lparr>r_id = ''7'', r_source = ''.'', r_type = ''A'', r_ttl = 300, r_target = ''1.1.1.1''\<rparr>"

definition mx_row :: raw_record where
  "mx_row = \<lparr>r_id = ''8'', r_source = ''.'', r_type = ''MX'', r_ttl = 300, r_target = ''mail''\<rparr>"

definition www_row :: raw_record where
  "www_row = \<lparr>r_id = ''9'', r_source = ''www'', r_type = ''A'', r_ttl = 60, r_target = ''2.2.2.2''\<rparr>"

definition three_A :: desired_record where
  "three_A = \<lparr>zone_name = ''example.com.'', name = ''www'', rtype = ''A'', ttl = 300,
              rvalue = Values [''1.1.1.1'', ''2.2.2.2'', ''3.3.3.3'']\<rparr>"

definition apex_row2 :: raw_record where
  "apex_row2 = \<lparr>r_id = ''10'', r_source = ''.'', r_type = ''A'', r_ttl = 300, r_target = ''3.3.3.3''\<rparr>"

definition www_record :: new_record where
  "www_record = \<lparr>nr_name = ''www'', nr_data = \<lparr>d_ttl = 60, d_type = ''A'', d_value = ''9.9.9.9''\<rparr>\<rparr>"

text \<open>
  The runs of the statements below: a provider whose cache holds the zone after one
  populate, with the remote side scripted to answer the next request normally and the one
  after it with status 400; and the plans applied to it.
\<close>

definition cached_provider :: "remote_zone provider" where
  "cached_provider =
     snd (populate remote_session zone_add (fresh [apex_row] [200, 200, 200, 400])
       ''example.com.'' [])"

definition failing_plan :: plan where
  "failing_plan =
     \<lparr>desired_name = ''example.com.'',
      changes = [Create www_CNAME, Create www_A, Delete apex_A]\<rparr>"

definition plan_www_A :: plan where
  "plan_www_A = \<lparr>desired_name = ''example.com.'', changes = [Create www_A]\<rparr>"

text \<open>The states of the failing run: after its first change, and after the call that fails.\<close>

definition after_cname :: "remote_zone provider" where
  "after_cname = snd (snd (apply_changes remote_session cached_provider [Create www_CNAME]))"

definition after_failure :: "remote_zone provider" where
  "after_failure = snd (snd (apply_change remote_session after_cname (Create www_A)))"

text \<open>A provider whose cache holds the zone after one populate, nothing scripted.\<close>

definition warm_provider :: "remote_zone provider" where
  "warm_provider =
     snd (populate remote_session zone_add (fresh [apex_row] []) ''example.com.'' [])"

lemmas run_defs =
  populate_def zone_records_def records_def request_def record_create_def record_delete_def
  remote_session_def serve_def fresh_def BASE_path_records_def rstrip_dot_def last_segment_def
  apply_plan_def apply_create_def apply_delete_def expand_def params_for_def
  params_for_multiple_def params_for_generic_def data_for_def data_for_generic_def
  SUPPORTS_def Let_def www_A_def www_CNAME_def apex_A_def apex_row_def mx_row_def www_row_def
  show_nat.simps fetch_request_def create_request_def delete_request_def zone_add_def
  three_A_def apex_row2_def www_record_def

lemmas vocab_defs =
  attempted_def accepted_def outcome_def after_all_def post_step_def delete_step_def
  candidates_def expected_def new_of_def apex_name_def

section \<open>Effects of the client methods\<close>

lemma request_effect:
  "request sess st m p d = (r, st') \<Longrightarrow>
     zone_cache st' = zone_cache st \<and>
     sent st' = sent st @ [\<lparr>req_method = m, req_path = p, req_json = d\<rparr>] \<and>
     remote st' = snd (sess (remote st) \<lparr>req_method = m, req_path = p, req_json = d\<rparr>)"
  by (auto simp: request_def Let_def split: prod.splits if_splits body.splits)

lemma records_effect:
  "records sess st dn = (r, st') \<Longrightarrow>
     zone_cache st' = zone_cache st \<and> sent st' = sent st @ [fetch_request dn] \<and>
     remote st' = snd (sess (remote st) (fetch_request dn))"
  unfolding records_def fetch_request_def
  by (auto split: prod.splits sum.splits option.splits dest: request_effect)

lemma record_create_effect:
  "record_create sess st dn ps = (r, st') \<Longrightarrow>
     zone_cache st' = zone_cache st \<and> sent st' = sent st @ [create_request dn ps]"
  unfolding record_create_def create_request_def
  by (auto split: prod.splits sum.splits dest: request_effect)

lemma record_delete_effect:
  "record_delete sess st dn i = (r, st') \<Longrightarrow>
     zone_cache st' = zone_cache st \<and> sent st' = sent st @ [delete_request dn i]"
  unfolding record_delete_def delete_request_def
  by (auto split: prod.splits sum.splits dest: request_effect)

lemma zone_records_hit:
  "zone_cache st z = Some rows \<Longrightarrow> zone_records sess st z = (Inr rows, st)"
  by (simp add: zone_records_def)

lemma zone_records_miss_ok:
  "zone_cache st z = None \<Longrightarrow> records sess st (butlast z) = (Inr rows, st1) \<Longrightarrow>
     zone_records sess st z = (Inr rows, st1\<lparr>zone_cache := (zone_cache st)(z \<mapsto> rows)\<rparr>)"
  by (auto simp: zone_records_def dest: records_effect)

lemma zone_records_miss_failed:
  "zone_cache st z = None \<Longrightarrow> records sess st (butlast z) = (Inl e, st1) \<Longrightarrow>
     zone_records sess st z = (if is_InfomaniakClientException e then Inr [] else Inl e, st1)"
  by (auto simp: zone_records_def)

lemma zone_records_cache:
  "zone_records sess st z = (r, st') \<Longrightarrow>
     zone_cache st' = zone_cache st \<or>
     (zone_cache st z = None \<and> (\<exists>rows. r = Inr rows \<and> zone_cache st' = (zone_cache st)(z \<mapsto> rows)))"
proof (cases "zone_cache st z")
  case (Some rows)
  assume "zone_records sess st z = (r, st')"
  with Some show ?thesis by (simp add: zone_records_hit)
next
  case None
  assume zr: "zone_records sess st z = (r, st')"
  obtain q st1 where rec: "records sess st (butlast z) = (q, st1)"
    by (cases "records sess st (butlast z)")
  then have c1: "zone_cache st1 = zone_cache st"
    by (simp add: records_effect)
  show ?thesis
  proof (cases q)
    case (Inl e)
    with None rec zr c1 show ?thesis
      by (auto simp: zone_records_miss_failed)
  next
    case (Inr rows)
    with None rec zr c1 show ?thesis
      by (auto simp: zone_records_miss_ok)
  qed
qed

lemma zone_records_keeps:
  "zone_records sess st z = (r, st') \<Longrightarrow> zone_cache st y = Some rows \<Longrightarrow>
     zone_cache st' y = Some rows"
  using zone_records_cache [of sess st z r st'] by auto

section \<open>Loops that end at the first call that raises\<close>

lemma length_answers: "length (answers step s xs) = length xs"
  by (induction xs arbitrary: s) simp_all

lemma accepted_le: "accepted step s xs \<le> length xs"
  unfolding accepted_def
  by (rule order_trans [OF length_takeWhile_le]) (simp add: length_answers)

lemma accepted_Nil: "accepted step s [] = 0"
  by (simp add: accepted_def)

lemma accepted_Cons:
  "accepted step s (x # xs) =
     (if fst (step s x) = Inr () then Suc (accepted step (snd (step s x)) xs) else 0)"
  by (simp add: accepted_def)

lemma attempted_Nil: "attempted step s [] = []"
  by (simp add: attempted_def)

lemma attempted_Cons:
  "attempted step s (x # xs) =
     x # (if fst (step s x) = Inr () then attempted step (snd (step s x)) xs else [])"
  by (simp add: attempted_def accepted_Cons)

lemma outcome_Nil: "outcome step s [] = Inr ()"
  by (simp add: outcome_def accepted_Nil)

lemma outcome_Cons:
  "outcome step s (x # xs) =
     (if fst (step s x) = Inr () then outcome step (snd (step s x)) xs else fst (step s x))"
  by (simp add: outcome_def accepted_Cons)

lemma after_all_Nil: "after_all step s [] = s"
  by (simp add: after_all_def)

lemma after_all_Cons: "after_all step s (x # xs) = after_all step (snd (step s x)) xs"
  by (simp add: after_all_def)

lemma after_all_append:
  "after_all step s (xs @ ys) = after_all step (after_all step s xs) ys"
  by (simp add: after_all_def)

lemmas calls_simps =
  accepted_Nil accepted_Cons attempted_Nil attempted_Cons outcome_Nil outcome_Cons
  after_all_Nil after_all_Cons

lemma outcome_ok_iff: "outcome step s xs = Inr () \<longleftrightarrow> accepted step s xs = length xs"
  by (induction xs arbitrary: s) (simp_all add: calls_simps)

lemma attempted_ok: "accepted step s xs = length xs \<Longrightarrow> attempted step s xs = xs"
  by (simp add: attempted_def)

lemma accepted_append:
  "accepted step s (xs @ ys) =
     (if accepted step s xs = length xs
      then length xs + accepted step (after_all step s xs) ys
      else accepted step s xs)"
  by (induction xs arbitrary: s) (simp_all add: calls_simps)

lemma outcome_append:
  "outcome step s (xs @ ys) =
     (if accepted step s xs = length xs
      then outcome step (after_all step s xs) ys
      else outcome step s xs)"
  by (induction xs arbitrary: s) (simp_all add: calls_simps)

lemma attempted_append:
  "attempted step s (xs @ ys) =
     (if accepted step s xs = length xs
      then xs @ attempted step (after_all step s xs) ys
      else attempted step s xs)"
  by (induction xs arbitrary: s) (simp_all add: calls_simps)

section \<open>The two loops of populate\<close>

lemma apex_name_idem: "apex_name (apex_name n) = apex_name n"
  by (simp add: apex_name_def)

lemma apex_name_not_dot: "apex_name n \<noteq> ''.''"
  by (simp add: apex_name_def)

lemma wf_append_type: "wf_types ts \<Longrightarrow> t \<in> SUPPORTS \<Longrightarrow> wf_types (append_type t r ts)"
  by (induction ts) (auto simp: wf_types_def)

lemma wf_append_name: "wf_names vs \<Longrightarrow> t \<in> SUPPORTS \<Longrightarrow> wf_names (append_name n t r vs)"
proof (induction vs)
  case Nil
  then show ?case by (simp add: wf_names_def wf_types_def)
next
  case (Cons e vs)
  obtain n' ts where e: "e = (n', ts)" by (cases e)
  from Cons.prems e have wt: "wf_types ts" and wn: "wf_names vs"
    by (simp_all add: wf_names_def)
  from Cons.IH [OF wn Cons.prems(2)] have ih: "wf_names (append_name n t r vs)" .
  show ?case
  proof (cases "n' = n")
    case True
    with e wn wf_append_type [OF wt Cons.prems(2), of r] show ?thesis
      by (simp add: wf_names_def)
  next
    case False
    with e wt ih show ?thesis
      by (simp add: wf_names_def)
  qed
qed

lemma keys_append_type: "fst ` set (append_type t r ts) = insert t (fst ` set ts)"
  by (induction t r ts rule: append_type.induct) (simp_all add: insert_commute)

lemma name_types_step:
  "name_types ((n', ts') # vs) = map (\<lambda>g. (n', fst g)) ts' @ name_types vs"
  by (simp add: name_types_def)

lemma expected_step: "expected ((n', ts') # vs) = map (new_of n') ts' @ expected vs"
  by (simp add: expected_def)

lemma name_types_mem:
  "(n, t) \<in> set (name_types vs) \<longleftrightarrow> (\<exists>ts g. (n, ts) \<in> set vs \<and> g \<in> set ts \<and> fst g = t)"
proof (induction vs)
  case Nil
  show ?case by (simp add: name_types_def)
next
  case (Cons e vs)
  obtain n' ts' where e: "e = (n', ts')" by (cases e)
  have "(n, t) \<in> (\<lambda>g. (n', fst g)) ` set ts' \<longleftrightarrow> n = n' \<and> (\<exists>g \<in> set ts'. fst g = t)"
    by auto
  with Cons.IH show ?case
    unfolding e name_types_step
    by (simp only: set_append Un_iff set_map list.set insert_iff prod.inject) blast
qed

lemma expected_mem:
  "a \<in> set (expected vs) \<longleftrightarrow> (\<exists>n ts g. (n, ts) \<in> set vs \<and> g \<in> set ts \<and> a = new_of n g)"
proof (induction vs)
  case Nil
  show ?case by (simp add: expected_def)
next
  case (Cons e vs)
  obtain n' ts' where e: "e = (n', ts')" by (cases e)
  have "a \<in> new_of n' ` set ts' \<longleftrightarrow> (\<exists>g \<in> set ts'. a = new_of n' g)"
    by auto
  with Cons.IH show ?case
    unfolding e expected_step
    by (simp only: set_append Un_iff set_map list.set insert_iff prod.inject) blast
qed

lemma name_types_Cons:
  "set (name_types ((n, ts) # vs)) = (\<lambda>t. (n, t)) ` fst ` set ts \<union> set (name_types vs)"
  unfolding name_types_def by (simp add: image_image)

lemma name_types_append_name:
  "set (name_types (append_name n t r vs)) = insert (n, t) (set (name_types vs))"
proof (induction vs)
  case Nil
  show ?case by (simp add: name_types_def)
next
  case (Cons e vs)
  obtain n' ts where e: "e = (n', ts)" by (cases e)
  show ?case
  proof (cases "n' = n")
    case True
    with e show ?thesis
      by (simp add: name_types_Cons keys_append_type)
  next
    case False
    with e Cons.IH show ?thesis
      by (simp add: name_types_Cons)
  qed
qed

lemma add_types_exact:
  "wf_types ts \<Longrightarrow>
     add_types cont n ts zone acc =
       (outcome cont zone (map (new_of n) ts),
        after_all cont zone (attempted cont zone (map (new_of n) ts)),
        acc @ take (accepted cont zone (map (new_of n) ts)) (map (new_of n) ts))"
proof (induction ts arbitrary: n zone acc)
  case Nil
  show ?case by (simp add: calls_simps)
next
  case (Cons g ts)
  obtain t rs where g: "g = (t, rs)" by (cases g)
  from Cons.prems g have t: "t \<in> SUPPORTS" and rs: "rs \<noteq> []" and wf: "wf_types ts"
    by (simp_all add: wf_types_def)
  from t have df: "data_for t = Some data_for_generic"
    by (auto simp: data_for_def SUPPORTS_def)
  from rs obtain r rs' where rs': "rs = r # rs'" by (cases rs) auto
  have m: "map (new_of (apex_name n)) ts = map (new_of n) ts"
    by (simp add: new_of_def apex_name_idem)
  obtain q zone' where c: "cont zone (new_of n g) = (q, zone')"
    by (cases "cont zone (new_of n g)")
  have unfold: "add_types cont n (g # ts) zone acc =
      (case cont zone (new_of n g) of
         (Inl e, z) \<Rightarrow> (Inl e, z, acc)
       | (Inr u, z) \<Rightarrow> add_types cont (apex_name n) ts z (acc @ [new_of n g]))"
    by (auto simp: g df rs' data_for_generic_def new_of_def apex_name_def Let_def
        split: prod.splits sum.splits)
  show ?case
  proof (cases q)
    case (Inl e)
    with c unfold show ?thesis
      by (simp add: calls_simps)
  next
    case (Inr u)
    with c unfold Cons.IH [OF wf, of "apex_name n" zone' "acc @ [new_of n g]"] m
    show ?thesis
      by (simp add: calls_simps)
  qed
qed

lemma add_names_exact:
  "wf_names vs \<Longrightarrow>
     add_names cont vs zone acc =
       (outcome cont zone (expected vs),
        after_all cont zone (attempted cont zone (expected vs)),
        acc @ take (accepted cont zone (expected vs)) (expected vs))"
proof (induction vs arbitrary: zone acc)
  case Nil
  show ?case by (simp add: expected_def calls_simps)
next
  case (Cons e vs)
  obtain n ts where e: "e = (n, ts)" by (cases e)
  from Cons.prems e have wt: "wf_types ts" and wn: "wf_names vs"
    by (simp_all add: wf_names_def)
  define xs where "xs = map (new_of n) ts"
  have ex: "expected (e # vs) = xs @ expected vs"
    by (simp add: e expected_step xs_def)
  have at: "add_types cont n ts zone acc =
      (outcome cont zone xs, after_all cont zone (attempted cont zone xs),
       acc @ take (accepted cont zone xs) xs)"
    unfolding xs_def by (rule add_types_exact [OF wt])
  show ?case
  proof (cases "accepted cont zone xs = length xs")
    case True
    then have ok: "outcome cont zone xs = Inr ()" by (simp add: outcome_ok_iff)
    from True have all: "attempted cont zone xs = xs" by (rule attempted_ok)
    from at ok all True
    have "add_names cont (e # vs) zone acc =
        add_names cont vs (after_all cont zone xs) (acc @ xs)"
      by (simp add: e)
    with Cons.IH [OF wn, of "after_all cont zone xs" "acc @ xs"] True show ?thesis
      unfolding ex
      by (simp add: outcome_append attempted_append accepted_append after_all_append)
  next
    case False
    then have "outcome cont zone xs \<noteq> Inr ()" by (simp add: outcome_ok_iff)
    then obtain err where err: "outcome cont zone xs = Inl err"
      by (cases "outcome cont zone xs") auto
    from accepted_le [of cont zone xs] False have lt: "accepted cont zone xs < length xs"
      by simp
    from at err have "add_names cont (e # vs) zone acc =
        (Inl err, after_all cont zone (attempted cont zone xs),
         acc @ take (accepted cont zone xs) xs)"
      by (simp add: e)
    with False err lt show ?thesis
      unfolding ex
      by (simp add: outcome_append attempted_append accepted_append)
  qed
qed

lemma group_records_wf:
  "wf_names vs \<Longrightarrow> wf_names (fst (group_records rows vs ws))"
  by (induction rows arbitrary: vs ws) (simp_all add: wf_append_name)

lemma group_records_keys:
  "(n, t) \<in> set (name_types (fst (group_records rows vs ws))) \<longleftrightarrow>
     (n, t) \<in> set (name_types vs) \<or>
     (\<exists>r \<in> set rows. r_type r \<in> SUPPORTS \<and> r_source r = n \<and> r_type r = t)"
proof (induction rows arbitrary: vs ws)
  case Nil
  show ?case by simp
next
  case (Cons r rows)
  show ?case
  proof (cases "r_type r \<in> SUPPORTS")
    case True
    then show ?thesis
      using Cons.IH [of "append_name (r_source r) (r_type r) r vs" ws]
      by (auto simp: name_types_append_name)
  next
    case False
    then show ?thesis
      using Cons.IH [of vs "ws @ [(r_type r, r_source r)]"]
      by auto
  qed
qed

lemma group_records_warnings:
  "snd (group_records rows vs ws) =
     ws @ map (\<lambda>r. (r_type r, r_source r)) (filter (\<lambda>r. r_type r \<notin> SUPPORTS) rows)"
  by (induction rows arbitrary: vs ws) simp_all

lemma group_records_filter:
  "fst (group_records (filter (\<lambda>r. r_type r \<in> SUPPORTS) rows) vs ws') =
     fst (group_records rows vs ws)"
  by (induction rows arbitrary: vs ws) simp_all

lemma expected_of_key:
  assumes "(n, t) \<in> set (name_types vs)"
  shows "\<exists>a \<in> set (expected vs). nr_name a = apex_name n \<and> d_type (nr_data a) = t"
proof -
  from assms obtain ts g where m: "(n, ts) \<in> set vs" "g \<in> set ts" "fst g = t"
    unfolding name_types_mem by blast
  then have "new_of n g \<in> set (expected vs)"
    unfolding expected_mem by blast
  moreover have "nr_name (new_of n g) = apex_name n \<and> d_type (nr_data (new_of n g)) = t"
    using m(3) by (simp add: new_of_def)
  ultimately show ?thesis by blast
qed

lemma expected_not_dot: "a \<in> set (expected vs) \<Longrightarrow> nr_name a \<noteq> ''.''"
  unfolding expected_mem by (auto simp: new_of_def apex_name_not_dot)

lemma expected_supported:
  assumes "wf_names vs" and "a \<in> set (expected vs)"
  shows "d_type (nr_data a) \<in> SUPPORTS"
proof -
  from assms(2) obtain n ts g where m: "(n, ts) \<in> set vs" "g \<in> set ts" "a = new_of n g"
    unfolding expected_mem by blast
  from assms(1) m(1) have "wf_types ts"
    by (auto simp: wf_names_def list_all_iff)
  with m(2) have "fst g \<in> SUPPORTS"
    by (auto simp: wf_types_def list_all_iff)
  with m(3) show ?thesis by (simp add: new_of_def)
qed

lemma grouped_wf: "wf_names (fst (group_records rows [] []))"
  by (rule group_records_wf) (simp add: wf_names_def)

lemma loops_exact:
  "add_names cont (fst (group_records rows [] [])) zone [] =
     (outcome cont zone (candidates rows),
      after_all cont zone (attempted cont zone (candidates rows)),
      take (accepted cont zone (candidates rows)) (candidates rows))"
  using add_names_exact [OF grouped_wf, of cont rows zone "[]"]
  by (simp add: candidates_def)

lemma candidates_Nil: "candidates [] = []"
  by (simp add: candidates_def expected_def)

lemma candidates_filter:
  "candidates (filter (\<lambda>r. r_type r \<in> SUPPORTS) rows) = candidates rows"
  using group_records_filter [of rows "[]" "[]" "[]"] by (simp add: candidates_def)

lemma candidates_supported: "a \<in> set (candidates rows) \<Longrightarrow> d_type (nr_data a) \<in> SUPPORTS"
  using expected_supported [OF grouped_wf [of rows], of a] by (simp add: candidates_def)

lemma candidates_not_dot: "a \<in> set (candidates rows) \<Longrightarrow> nr_name a \<noteq> ''.''"
  using expected_not_dot [of a] by (simp add: candidates_def)

lemma candidates_of_row:
  assumes "r \<in> set rows" and "r_type r \<in> SUPPORTS"
  shows "\<exists>a \<in> set (candidates rows).
           nr_name a = apex_name (r_source r) \<and> d_type (nr_data a) = r_type r"
proof -
  from assms have "(r_source r, r_type r) \<in> set (name_types (fst (group_records rows [] [])))"
    unfolding group_records_keys by blast
  from expected_of_key [OF this] show ?thesis
    by (simp add: candidates_def)
qed

section \<open>The zone record cache\<close>

text \<open>
  C10. When the fetch made on a cache miss fails, the cache is left as it was: nothing is
  stored for the zone, not even an empty list. The access answers the empty list for a
  client exception and raises any other error; the zone is still absent afterwards, and
  the next access for it sends the fetch again.
\<close>

theorem failed_fetch_is_not_cached:
  assumes "zone_cache st z = None"
    and "records sess st (butlast z) = (Inl e, st1)"
  shows "zone_records sess st z = (if is_InfomaniakClientException e then Inr [] else Inl e, st1)
    \<and> zone_cache st1 = zone_cache st
    \<and> zone_cache st1 z = None
    \<and> sent (snd (zone_records sess st1 z)) = sent st1 @ [fetch_request (butlast z)]"
proof -
  have c: "zone_cache st1 = zone_cache st"
    using assms(2) by (simp add: records_effect)
  with assms(1) have miss: "zone_cache st1 z = None" by simp
  obtain q st2 where rec: "records sess st1 (butlast z) = (q, st2)"
    by (cases "records sess st1 (butlast z)")
  then have s2: "sent st2 = sent st1 @ [fetch_request (butlast z)]"
    by (simp add: records_effect)
  have "sent (snd (zone_records sess st1 z)) = sent st2"
  proof (cases q)
    case (Inl e')
    with miss rec show ?thesis by (simp add: zone_records_miss_failed)
  next
    case (Inr rows)
    with miss rec show ?thesis by (simp add: zone_records_miss_ok)
  qed
  with s2 c miss assms show ?thesis
    by (simp add: zone_records_miss_failed)
qed

theorem failed_fetch_is_not_cached_witness:
  "zone_cache (fresh [apex_row] [401, 401]) ''example.com.'' = None
   \<and> fst (records remote_session (fresh [apex_row] [401, 401]) ''example.com'')
       = Inl InfomaniakClientUnauthorized
   \<and> fst (zone_records remote_session (fresh [apex_row] [401, 401]) ''example.com.'') = Inr []
   \<and> zone_cache (snd (zone_records remote_session (fresh [apex_row] [401, 401]) ''example.com.''))
       ''example.com.'' = None
   \<and> sent (snd (zone_records remote_session
        (snd (zone_records remote_session (fresh [apex_row] [401, 401]) ''example.com.''))
        ''example.com.''))
       = [fetch_request ''example.com'', fetch_request ''example.com'']"
proof -
  have h1: "zone_cache (fresh [apex_row] [401, 401]) ''example.com.'' = None"
    by (simp add: fresh_def)
  have h2: "records remote_session (fresh [apex_row] [401, 401]) (butlast ''example.com.'')
      = (Inl InfomaniakClientUnauthorized,
         snd (records remote_session (fresh [apex_row] [401, 401]) ''example.com''))"
    by (simp add: run_defs)
  show ?thesis
    using failed_fetch_is_not_cached [OF h1 h2]
    by (simp add: run_defs)
qed

section \<open>What populate does with the rows it gets\<close>

lemma records_status:
  assumes "sess (remote st) (fetch_request dn) = (res, w)"
  shows "fst (records sess st dn) =
     (if status_code res = 400 then Inl InfomaniakClientBadRequest
      else if status_code res = 401 then Inl InfomaniakClientUnauthorized
      else if 400 \<le> status_code res \<and> status_code res < 600 then Inl (HTTPError (status_code res))
      else (case body res of
              NotJson \<Rightarrow> Inl JSONDecodeError
            | Json None \<Rightarrow> Inl KeyError
            | Json (Some rows) \<Rightarrow> Inr rows))"
  using assms
  by (simp add: records_def request_def fetch_request_def Let_def
      split: body.splits option.splits)

lemma populate_raised:
  "zone_records sess st z = (Inl e, st1) \<Longrightarrow>
     populate sess cont st z zone =
       (\<lparr>ret = Inl e, added = [], warnings = [], zone_after = zone\<rparr>, st1)"
  by (simp add: populate_def)

lemma populate_rejected:
  assumes "zone_records sess st z = (Inr rows, st1)"
    and "outcome cont zone (candidates rows) = Inl e"
  shows "populate sess cont st z zone =
     (\<lparr>ret = Inl e,
       added = take (accepted cont zone (candidates rows)) (candidates rows),
       warnings = snd (group_records rows [] []),
       zone_after = after_all cont zone (attempted cont zone (candidates rows))\<rparr>,
      st1)"
proof -
  obtain vs ws where g: "group_records rows [] [] = (vs, ws)"
    by (cases "group_records rows [] []")
  with loops_exact [of cont rows zone] assms(2)
  have "add_names cont vs zone [] =
      (Inl e, after_all cont zone (attempted cont zone (candidates rows)),
       take (accepted cont zone (candidates rows)) (candidates rows))"
    by simp
  with assms(1) g show ?thesis
    by (simp add: populate_def)
qed

lemma populate_taken:
  assumes "zone_records sess st z = (Inr rows, st1)"
    and "outcome cont zone (candidates rows) = Inr ()"
  shows "populate sess cont st z zone =
     (\<lparr>ret = (case fst (records sess st1 z) of
                Inl e \<Rightarrow> Inl e
              | Inr _ \<Rightarrow> Inr (zone_cache st1 z \<noteq> None)),
       added = candidates rows,
       warnings = snd (group_records rows [] []),
       zone_after = after_all cont zone (candidates rows)\<rparr>,
      snd (records sess st1 z))"
proof -
  obtain vs ws where g: "group_records rows [] [] = (vs, ws)"
    by (cases "group_records rows [] []")
  from assms(2) have full: "accepted cont zone (candidates rows) = length (candidates rows)"
    by (simp add: outcome_ok_iff)
  with g loops_exact [of cont rows zone] assms(2)
  have a: "add_names cont vs zone [] =
      (Inr (), after_all cont zone (candidates rows), candidates rows)"
    by (simp add: attempted_ok)
  obtain q st2 where r: "records sess st1 z = (q, st2)"
    by (cases "records sess st1 z")
  show ?thesis
    by (cases q) (simp_all add: populate_def assms(1) g a r)
qed

lemma populate_added:
  assumes "zone_records sess st z = (Inr rows, st1)"
  shows "added (fst (populate sess cont st z zone))
      = take (accepted cont zone (candidates rows)) (candidates rows)
    \<and> warnings (fst (populate sess cont st z zone)) = snd (group_records rows [] [])
    \<and> zone_after (fst (populate sess cont st z zone))
      = after_all cont zone (attempted cont zone (candidates rows))"
proof (cases "outcome cont zone (candidates rows)")
  case (Inl e)
  from populate_rejected [OF assms this] show ?thesis by simp
next
  case (Inr u)
  then have ok: "outcome cont zone (candidates rows) = Inr ()" by simp
  then have "accepted cont zone (candidates rows) = length (candidates rows)"
    by (simp add: outcome_ok_iff)
  with populate_taken [OF assms ok] show ?thesis
    by (simp add: attempted_ok)
qed

text \<open>
  C5, as the code has it. On a cache miss, a fetch answered with status 400 or 401 (the two
  client exceptions) makes the cache access return the empty list without storing it, and
  populate hands no record to the zone. A fetch answered with any other status from 400 to
  599 raises the HTTP library's error, which the cache access and populate let through.
\<close>

theorem client_exceptions_give_empty_zone:
  assumes "zone_cache st z = None"
    and "sess (remote st) (fetch_request (butlast z)) = (res, w)"
  shows "(status_code res = 400 \<or> status_code res = 401 \<longrightarrow>
            fst (zone_records sess st z) = Inr []
            \<and> zone_cache (snd (zone_records sess st z)) = zone_cache st
            \<and> added (fst (populate sess cont st z zone)) = [])
    \<and> (400 \<le> status_code res \<and> status_code res < 600
          \<and> status_code res \<noteq> 400 \<and> status_code res \<noteq> 401 \<longrightarrow>
            fst (zone_records sess st z) = Inl (HTTPError (status_code res))
            \<and> ret (fst (populate sess cont st z zone)) = Inl (HTTPError (status_code res)))"
proof -
  obtain q st1 where rec: "records sess st (butlast z) = (q, st1)"
    by (cases "records sess st (butlast z)")
  have q: "q = fst (records sess st (butlast z))" by (simp add: rec)
  have c: "zone_cache st1 = zone_cache st"
    using rec by (simp add: records_effect)
  show ?thesis
  proof (intro conjI impI)
    assume s: "status_code res = 400 \<or> status_code res = 401"
    with q records_status [where sess = sess and st = st, OF assms(2)]
    have "q = Inl InfomaniakClientBadRequest \<or> q = Inl InfomaniakClientUnauthorized"
      by auto
    then obtain e where e: "q = Inl e" "is_InfomaniakClientException e" by auto
    with assms(1) rec have zr: "zone_records sess st z = (Inr [], st1)"
      by (simp add: zone_records_miss_failed)
    from zr show "fst (zone_records sess st z) = Inr []" by simp
    from zr c show "zone_cache (snd (zone_records sess st z)) = zone_cache st" by simp
    from populate_added [OF zr, of cont zone]
    show "added (fst (populate sess cont st z zone)) = []"
      by (simp add: candidates_Nil)
  next
    assume s: "400 \<le> status_code res \<and> status_code res < 600
        \<and> status_code res \<noteq> 400 \<and> status_code res \<noteq> 401"
    with q records_status [where sess = sess and st = st, OF assms(2)] have "q = Inl (HTTPError (status_code res))"
      by simp
    with assms(1) rec
    have zr: "zone_records sess st z = (Inl (HTTPError (status_code res)), st1)"
      by (simp add: zone_records_miss_failed)
    from zr show "fst (zone_records sess st z) = Inl (HTTPError (status_code res))" by simp
    from populate_raised [OF zr, of cont zone]
    show "ret (fst (populate sess cont st z zone)) = Inl (HTTPError (status_code res))" by simp
  qed
qed

theorem client_exceptions_give_empty_zone_witness:
  "fst (zone_records remote_session (fresh [apex_row] [401]) ''example.com.'') = Inr []
   \<and> added (fst (populate remote_session zone_add (fresh [apex_row] [401]) ''example.com.'' [])) = []
   \<and> fst (zone_records remote_session (fresh [apex_row] [503]) ''example.com.'')
       = Inl (HTTPError 503)
   \<and> ret (fst (populate remote_session zone_add (fresh [apex_row] [503]) ''example.com.'' []))
       = Inl (HTTPError 503)"
proof -
  have m1: "zone_cache (fresh [apex_row] [401]) ''example.com.'' = None"
    and m2: "zone_cache (fresh [apex_row] [503]) ''example.com.'' = None"
    by (simp_all add: fresh_def)
  have r1: "remote_session (remote (fresh [apex_row] [401]))
        (fetch_request (butlast ''example.com.''))
      = (\<lparr>status_code = 401, body = NotJson\<rparr>,
         \<lparr>stored = [apex_row], next_id = 1, scripted = []\<rparr>)"
    by (simp add: fresh_def remote_session_def)
  have r2: "remote_session (remote (fresh [apex_row] [503]))
        (fetch_request (butlast ''example.com.''))
      = (\<lparr>status_code = 503, body = NotJson\<rparr>,
         \<lparr>stored = [apex_row], next_id = 1, scripted = []\<rparr>)"
    by (simp add: fresh_def remote_session_def)
  show ?thesis
    using client_exceptions_give_empty_zone
        [where sess = remote_session and st = "fresh [apex_row] [401]"
          and cont = zone_add and zone = "[]", OF m1 r1]
      client_exceptions_give_empty_zone
        [where sess = remote_session and st = "fresh [apex_row] [503]"
          and cont = zone_add and zone = "[]", OF m2 r2]
    by simp
qed

text \<open>
  C5 as stated fails for the third kind of failure: a fetch answered 500 is not turned into
  the empty list, the cache access raises.
\<close>

theorem other_status_propagates_counterexample:
  "zone_cache (fresh [apex_row] [500]) ''example.com.'' = None
   \<and> fst (zone_records remote_session (fresh [apex_row] [500]) ''example.com.'')
       = Inl (HTTPError 500)
   \<and> fst (zone_records remote_session (fresh [apex_row] [500]) ''example.com.'') \<noteq> Inr []"
  by (simp add: run_defs)


text \<open>
  C3, as the code has it. The membership test comes after the cache access of the same
  call, so the boolean populate returns says whether the zone is in the cache after that
  access: it was there before the call, or the fetch made by this call succeeded.
\<close>

theorem populate_returns_cached_after_access:
  assumes "ret (fst (populate sess cont st z zone)) = Inr b"
  shows "b = (zone_cache st z \<noteq> None \<or> (\<exists>rows. fst (records sess st (butlast z)) = Inr rows))
    \<and> b = (zone_cache (snd (populate sess cont st z zone)) z \<noteq> None)"
proof -
  obtain q st1 where zr: "zone_records sess st z = (q, st1)"
    by (cases "zone_records sess st z")
  show ?thesis
  proof (cases q)
    case (Inl e)
    with zr assms populate_raised [of sess st z _ st1 cont zone] show ?thesis by simp
  next
    case (Inr rows)
    with zr have zr': "zone_records sess st z = (Inr rows, st1)" by simp
    have ok: "outcome cont zone (candidates rows) = Inr ()"
    proof (cases "outcome cont zone (candidates rows)")
      case (Inl e)
      from populate_rejected [OF zr' this] assms show ?thesis by simp
    next
      case (Inr u)
      then show ?thesis by simp
    qed
    obtain q2 st2 where r2: "records sess st1 z = (q2, st2)"
      by (cases "records sess st1 z")
    then have c2: "zone_cache st2 = zone_cache st1" by (simp add: records_effect)
    from assms populate_taken [OF zr' ok] r2
    have b: "b = (zone_cache st1 z \<noteq> None)"
      by (cases q2) simp_all
    have after: "zone_cache (snd (populate sess cont st z zone)) z = zone_cache st1 z"
      using populate_taken [OF zr' ok] r2 c2 by simp
    have "(zone_cache st1 z \<noteq> None) =
        (zone_cache st z \<noteq> None \<or> (\<exists>rows. fst (records sess st (butlast z)) = Inr rows))"
    proof (cases "zone_cache st z")
      case (Some rows')
      with zr' show ?thesis by (simp add: zone_records_hit)
    next
      case None
      obtain q1 s1 where r1: "records sess st (butlast z) = (q1, s1)"
        by (cases "records sess st (butlast z)")
      then have c1: "zone_cache s1 = zone_cache st" by (simp add: records_effect)
      show ?thesis
      proof (cases q1)
        case (Inl e)
        with None r1 zr' c1 show ?thesis
          by (auto simp: zone_records_miss_failed split: if_splits)
      next
        case (Inr rows1)
        with None r1 zr' show ?thesis
          by (auto simp: zone_records_miss_ok)
      qed
    qed
    with b after show ?thesis by simp
  qed
qed

theorem populate_returns_cached_after_access_witness:
  "ret (fst (populate remote_session zone_add (fresh [apex_row] []) ''example.com.'' [])) = Inr True
   \<and> zone_cache (fresh [apex_row] []) ''example.com.'' = None
   \<and> fst (records remote_session (fresh [apex_row] []) ''example.com'') = Inr [apex_row]
   \<and> zone_cache (snd (populate remote_session zone_add (fresh [apex_row] []) ''example.com.'' []))
       ''example.com.'' = Some [apex_row]"
proof -
  have h: "ret (fst (populate remote_session zone_add (fresh [apex_row] []) ''example.com.'' [])) = Inr True"
    by (simp add: run_defs)
  show ?thesis
    using populate_returns_cached_after_access [OF h] h
    by (simp add: run_defs)
qed

text \<open>
  C3 as stated fails on the first populate of a zone whose fetch succeeds: the zone was not
  in the cache when the call began, and the call returns true.
\<close>

theorem first_populate_returns_true_counterexample:
  "zone_cache (fresh [apex_row] []) ''example.com.'' = None
   \<and> ret (fst (populate remote_session zone_add (fresh [apex_row] []) ''example.com.'' [])) = Inr True"
  by (simp add: run_defs)

section \<open>Populate: unsupported types\<close>

text \<open>
  C9, as the code has it. A row of an unsupported type gives one warning and nothing else:
  no candidate has an unsupported type, the candidates are those of the supported rows
  alone, and every supported row has its candidate. The candidates are offered to the zone
  container in order. When \<^verbatim>\<open>Record.new\<close> or \<^verbatim>\<open>add_record\<close> refuses one, populate raises that
  error at once: the zone has the candidates before it and the later ones are not offered.
  When none is refused the zone takes them all, and what populate then returns or raises
  does not depend on the rows.
\<close>

theorem unsupported_rows_are_skipped:
  "zone_records sess st z = (Inr rows, st1) \<longrightarrow>
     warnings (fst (populate sess cont st z zone))
       = map (\<lambda>r. (r_type r, r_source r)) (filter (\<lambda>r. r_type r \<notin> SUPPORTS) rows)
     \<and> candidates rows = candidates (filter (\<lambda>r. r_type r \<in> SUPPORTS) rows)
     \<and> (\<forall>a \<in> set (candidates rows). d_type (nr_data a) \<in> SUPPORTS)
     \<and> (\<forall>r \<in> set rows. r_type r \<in> SUPPORTS \<longrightarrow>
          (\<exists>a \<in> set (candidates rows).
             nr_name a = apex_name (r_source r) \<and> d_type (nr_data a) = r_type r))
     \<and> added (fst (populate sess cont st z zone))
       = take (accepted cont zone (candidates rows)) (candidates rows)
     \<and> zone_after (fst (populate sess cont st z zone))
       = after_all cont zone (attempted cont zone (candidates rows))
     \<and> (\<forall>e. outcome cont zone (candidates rows) = Inl e \<longrightarrow>
          populate sess cont st z zone
            = (\<lparr>ret = Inl e,
                added = take (accepted cont zone (candidates rows)) (candidates rows),
                warnings = map (\<lambda>r. (r_type r, r_source r))
                  (filter (\<lambda>r. r_type r \<notin> SUPPORTS) rows),
                zone_after = after_all cont zone (attempted cont zone (candidates rows))\<rparr>,
               st1))
     \<and> (outcome cont zone (candidates rows) = Inr () \<longrightarrow>
          added (fst (populate sess cont st z zone)) = candidates rows
          \<and> ret (fst (populate sess cont st z zone))
            = (case fst (records sess st1 z) of
                 Inl e \<Rightarrow> Inl e
               | Inr _ \<Rightarrow> Inr (zone_cache st1 z \<noteq> None)))"
proof (intro impI)
  assume zr: "zone_records sess st z = (Inr rows, st1)"
  have w: "snd (group_records rows [] [])
      = map (\<lambda>r. (r_type r, r_source r)) (filter (\<lambda>r. r_type r \<notin> SUPPORTS) rows)"
    by (simp add: group_records_warnings)
  have 1: "warnings (fst (populate sess cont st z zone))
       = map (\<lambda>r. (r_type r, r_source r)) (filter (\<lambda>r. r_type r \<notin> SUPPORTS) rows)"
    using populate_added [OF zr, of cont zone] w by simp
  have 2: "candidates rows = candidates (filter (\<lambda>r. r_type r \<in> SUPPORTS) rows)"
    by (simp add: candidates_filter)
  have 3: "\<forall>a \<in> set (candidates rows). d_type (nr_data a) \<in> SUPPORTS"
    by (blast intro: candidates_supported)
  have 4: "\<forall>r \<in> set rows. r_type r \<in> SUPPORTS \<longrightarrow>
          (\<exists>a \<in> set (candidates rows).
             nr_name a = apex_name (r_source r) \<and> d_type (nr_data a) = r_type r)"
    by (blast intro: candidates_of_row)
  have 5: "added (fst (populate sess cont st z zone))
       = take (accepted cont zone (candidates rows)) (candidates rows)"
    and 6: "zone_after (fst (populate sess cont st z zone))
       = after_all cont zone (attempted cont zone (candidates rows))"
    using populate_added [OF zr, of cont zone] by simp_all
  have 7: "\<forall>e. outcome cont zone (candidates rows) = Inl e \<longrightarrow>
          populate sess cont st z zone
            = (\<lparr>ret = Inl e,
                added = take (accepted cont zone (candidates rows)) (candidates rows),
                warnings = map (\<lambda>r. (r_type r, r_source r))
                  (filter (\<lambda>r. r_type r \<notin> SUPPORTS) rows),
                zone_after = after_all cont zone (attempted cont zone (candidates rows))\<rparr>,
               st1)"
    using populate_rejected [OF zr, of cont zone] w by simp
  have 8: "outcome cont zone (candidates rows) = Inr () \<longrightarrow>
          added (fst (populate sess cont st z zone)) = candidates rows
          \<and> ret (fst (populate sess cont st z zone))
            = (case fst (records sess st1 z) of
                 Inl e \<Rightarrow> Inl e
               | Inr _ \<Rightarrow> Inr (zone_cache st1 z \<noteq> None))"
    using populate_taken [OF zr, of cont zone] by simp
  from 1 2 3 4 5 6 7 8 show "warnings (fst (populate sess cont st z zone))
       = map (\<lambda>r. (r_type r, r_source r)) (filter (\<lambda>r. r_type r \<notin> SUPPORTS) rows)
     \<and> candidates rows = candidates (filter (\<lambda>r. r_type r \<in> SUPPORTS) rows)
     \<and> (\<forall>a \<in> set (candidates rows). d_type (nr_data a) \<in> SUPPORTS)
     \<and> (\<forall>r \<in> set rows. r_type r \<in> SUPPORTS \<longrightarrow>
          (\<exists>a \<in> set (candidates rows).
             nr_name a = apex_name (r_source r) \<and> d_type (nr_data a) = r_type r))
     \<and> added (fst (populate sess cont st z zone))
       = take (accepted cont zone (candidates rows)) (candidates rows)
     \<and> zone_after (fst (populate sess cont st z zone))
       = after_all cont zone (attempted cont zone (candidates rows))
     \<and> (\<forall>e. outcome cont zone (candidates rows) = Inl e \<longrightarrow>
          populate sess cont st z zone
            = (\<lparr>ret = Inl e,
                added = take (accepted cont zone (candidates rows)) (candidates rows),
                warnings = map (\<lambda>r. (r_type r, r_source r))
                  (filter (\<lambda>r. r_type r \<notin> SUPPORTS) rows),
                zone_after = after_all cont zone (attempted cont zone (candidates rows))\<rparr>,
               st1))
     \<and> (outcome cont zone (candidates rows) = Inr () \<longrightarrow>
          added (fst (populate sess cont st z zone)) = candidates rows
          \<and> ret (fst (populate sess cont st z zone))
            = (case fst (records sess st1 z) of
                 Inl e \<Rightarrow> Inl e
               | Inr _ \<Rightarrow> Inr (zone_cache st1 z \<noteq> None)))"
    by (intro conjI)
qed

theorem unsupported_rows_are_skipped_witness:
  "fst (zone_records remote_session (fresh [mx_row, www_row, apex_row] []) ''example.com.'')
     = Inr [mx_row, www_row, apex_row]
   \<and> candidates [mx_row, www_row, apex_row]
     = [\<lparr>nr_name = ''www'', nr_data = \<lparr>d_ttl = 60, d_type = ''A'', d_value = ''2.2.2.2''\<rparr>\<rparr>,
        \<lparr>nr_name = '''', nr_data = \<lparr>d_ttl = 300, d_type = ''A'', d_value = ''1.1.1.1''\<rparr>\<rparr>]
   \<and> outcome zone_add [] (candidates [mx_row, www_row, apex_row]) = Inr ()
   \<and> added (fst (populate remote_session zone_add (fresh [mx_row, www_row, apex_row] [])
        ''example.com.'' []))
     = [\<lparr>nr_name = ''www'', nr_data = \<lparr>d_ttl = 60, d_type = ''A'', d_value = ''2.2.2.2''\<rparr>\<rparr>,
        \<lparr>nr_name = '''', nr_data = \<lparr>d_ttl = 300, d_type = ''A'', d_value = ''1.1.1.1''\<rparr>\<rparr>]
   \<and> warnings (fst (populate remote_session zone_add (fresh [mx_row, www_row, apex_row] [])
        ''example.com.'' []))
     = [(''MX'', ''.'')]
   \<and> ret (fst (populate remote_session zone_add (fresh [mx_row, www_row, apex_row] [])
        ''example.com.'' []))
     = Inr True
   \<and> outcome zone_add [www_record] (candidates [mx_row, www_row, apex_row])
     = Inl DuplicateRecordException
   \<and> populate remote_session zone_add (fresh [mx_row, www_row, apex_row] [])
        ''example.com.'' [www_record]
     = (\<lparr>ret = Inl DuplicateRecordException, added = [], warnings = [(''MX'', ''.'')],
         zone_after = [www_record]\<rparr>,
        snd (zone_records remote_session (fresh [mx_row, www_row, apex_row] []) ''example.com.''))"
proof -
  have h: "zone_records remote_session (fresh [mx_row, www_row, apex_row] []) ''example.com.''
      = (Inr [mx_row, www_row, apex_row],
         snd (zone_records remote_session (fresh [mx_row, www_row, apex_row] [])
           ''example.com.''))"
    by (simp add: run_defs)
  show ?thesis
    using unsupported_rows_are_skipped
      [of remote_session "fresh [mx_row, www_row, apex_row] []" "''example.com.''"
          "[mx_row, www_row, apex_row]"
          "snd (zone_records remote_session (fresh [mx_row, www_row, apex_row] [])
             ''example.com.'')"
          zone_add "[]"]
      unsupported_rows_are_skipped
      [of remote_session "fresh [mx_row, www_row, apex_row] []" "''example.com.''"
          "[mx_row, www_row, apex_row]"
          "snd (zone_records remote_session (fresh [mx_row, www_row, apex_row] [])
             ''example.com.'')"
          zone_add "[www_record]"]
      h
    by (simp add: run_defs vocab_defs)
qed

text \<open>
  C9 as stated fails when the zone container refuses a record. The zone already holds a
  record for www of type A; the rows are one MX row and two supported rows. Populate raises
  the container's error, and the record of the supported row at the apex is never handed
  over.
\<close>

theorem refused_record_ends_populate_counterexample:
  "r_type mx_row \<notin> SUPPORTS
   \<and> r_type apex_row \<in> SUPPORTS
   \<and> fst (zone_records remote_session (fresh [mx_row, www_row, apex_row] []) ''example.com.'')
       = Inr [mx_row, www_row, apex_row]
   \<and> ret (fst (populate remote_session zone_add (fresh [mx_row, www_row, apex_row] [])
        ''example.com.'' [www_record]))
       = Inl DuplicateRecordException
   \<and> added (fst (populate remote_session zone_add (fresh [mx_row, www_row, apex_row] [])
        ''example.com.'' [www_record]))
       = []
   \<and> zone_after (fst (populate remote_session zone_add (fresh [mx_row, www_row, apex_row] [])
        ''example.com.'' [www_record]))
       = [www_record]"
  by (simp add: run_defs)

section \<open>Effects of the change handlers\<close>

lemma create_each_effect:
  "\<exists>k. k \<le> length ps
     \<and> sent (snd (create_each sess st dn ps)) = sent st @ map (create_request dn) (take k ps)
     \<and> (fst (create_each sess st dn ps) = Inr () \<longrightarrow> k = length ps)
     \<and> zone_cache (snd (create_each sess st dn ps)) = zone_cache st"
proof (induction ps arbitrary: st)
  case Nil
  show ?case by simp
next
  case (Cons p ps)
  obtain q st1 where rc: "record_create sess st dn p = (q, st1)"
    by (cases "record_create sess st dn p")
  from record_create_effect [OF rc]
  have e: "zone_cache st1 = zone_cache st" "sent st1 = sent st @ [create_request dn p]"
    by simp_all
  show ?case
  proof (cases q)
    case (Inl err)
    with rc have "create_each sess st dn (p # ps) = (Inl err, st1)" by simp
    with e show ?thesis by (intro exI [of _ "Suc 0"]) simp
  next
    case (Inr u)
    with rc have eq: "create_each sess st dn (p # ps) = create_each sess st1 dn ps" by simp
    from Cons.IH [of st1] obtain k where k: "k \<le> length ps"
      "sent (snd (create_each sess st1 dn ps)) = sent st1 @ map (create_request dn) (take k ps)"
      "fst (create_each sess st1 dn ps) = Inr () \<longrightarrow> k = length ps"
      "zone_cache (snd (create_each sess st1 dn ps)) = zone_cache st1"
      by blast
    show ?thesis
      unfolding eq using k e by (intro exI [of _ "Suc k"]) simp
  qed
qed

lemma delete_each_effect:
  "\<exists>k. k \<le> length (filter (\<lambda>r. name ex = r_source r \<and> rtype ex = r_type r) rs)
     \<and> sent (snd (delete_each sess st ex rs))
         = sent st @ map (\<lambda>r. delete_request (butlast (zone_name ex)) (r_id r))
             (take k (filter (\<lambda>r. name ex = r_source r \<and> rtype ex = r_type r) rs))
     \<and> (fst (delete_each sess st ex rs) = Inr ()
          \<longrightarrow> k = length (filter (\<lambda>r. name ex = r_source r \<and> rtype ex = r_type r) rs))
     \<and> zone_cache (snd (delete_each sess st ex rs)) = zone_cache st"
proof (induction rs arbitrary: st)
  case Nil
  show ?case by simp
next
  case (Cons r rs)
  show ?case
  proof (cases "name ex = r_source r \<and> rtype ex = r_type r")
    case False
    then have eq: "delete_each sess st ex (r # rs) = delete_each sess st ex rs" by auto
    from False have f: "filter (\<lambda>r. name ex = r_source r \<and> rtype ex = r_type r) (r # rs)
        = filter (\<lambda>r. name ex = r_source r \<and> rtype ex = r_type r) rs"
      by auto
    show ?thesis unfolding eq f by (rule Cons.IH)
  next
    case True
    then have f: "filter (\<lambda>r. name ex = r_source r \<and> rtype ex = r_type r) (r # rs)
        = r # filter (\<lambda>r. name ex = r_source r \<and> rtype ex = r_type r) rs"
      by simp
    obtain q st1 where rd: "record_delete sess st (butlast (zone_name ex)) (r_id r) = (q, st1)"
      by (cases "record_delete sess st (butlast (zone_name ex)) (r_id r)")
    from record_delete_effect [OF rd]
    have e: "zone_cache st1 = zone_cache st"
      "sent st1 = sent st @ [delete_request (butlast (zone_name ex)) (r_id r)]"
      by simp_all
    show ?thesis
    proof (cases q)
      case (Inl err)
      with rd True have "delete_each sess st ex (r # rs) = (Inl err, st1)" by simp
      with e show ?thesis unfolding f by (intro exI [of _ "Suc 0"]) simp
    next
      case (Inr u)
      with rd True have eq: "delete_each sess st ex (r # rs) = delete_each sess st1 ex rs"
        by simp
      from Cons.IH [of st1] obtain k
        where k: "k \<le> length (filter (\<lambda>r. name ex = r_source r \<and> rtype ex = r_type r) rs)"
        "sent (snd (delete_each sess st1 ex rs))
           = sent st1 @ map (\<lambda>r. delete_request (butlast (zone_name ex)) (r_id r))
               (take k (filter (\<lambda>r. name ex = r_source r \<and> rtype ex = r_type r) rs))"
        "fst (delete_each sess st1 ex rs) = Inr ()
           \<longrightarrow> k = length (filter (\<lambda>r. name ex = r_source r \<and> rtype ex = r_type r) rs)"
        "zone_cache (snd (delete_each sess st1 ex rs)) = zone_cache st1"
        by blast
      show ?thesis
        unfolding eq f using k e by (intro exI [of _ "Suc k"]) simp
    qed
  qed
qed

lemma apply_create_cache: "zone_cache (snd (apply_create sess st new)) = zone_cache st"
  using create_each_effect [of _ sess st "butlast (zone_name new)"]
  by (auto simp: apply_create_def split: sum.splits)

lemma apply_delete_record:
  "fst (snd (apply_delete sess st ex)) = (if name ex = '''' then ex\<lparr>name := ''.''\<rparr> else ex)"
  by (simp add: apply_delete_def Let_def case_prod_beta split: sum.splits)

lemma apply_delete_keeps:
  assumes "zone_cache st y = Some rows"
  shows "zone_cache (snd (snd (apply_delete sess st ex))) y = Some rows"
proof -
  define ex' where "ex' = (if name ex = '''' then ex\<lparr>name := ''.''\<rparr> else ex)"
  obtain q st1 where zr: "zone_records sess st (zone_name ex') = (q, st1)"
    by (cases "zone_records sess st (zone_name ex')")
  from zone_records_keeps [OF zr assms] have k1: "zone_cache st1 y = Some rows" .
  show ?thesis
  proof (cases q)
    case (Inl e)
    with zr k1 show ?thesis
      by (simp add: apply_delete_def Let_def ex'_def [symmetric])
  next
    case (Inr rs)
    from delete_each_effect [of ex' rs sess st1]
    have "zone_cache (snd (delete_each sess st1 ex' rs)) = zone_cache st1" by blast
    with Inr zr k1 show ?thesis
      by (simp add: apply_delete_def Let_def ex'_def [symmetric] case_prod_beta)
  qed
qed

lemma apply_change_keeps:
  assumes "zone_cache st y = Some rows"
  shows "zone_cache (snd (snd (apply_change sess st c))) y = Some rows"
proof (cases c)
  case (Create new)
  with assms show ?thesis
    using apply_create_cache [of sess st new] by (simp add: case_prod_beta)
next
  case (Delete ex)
  with apply_delete_keeps [OF assms, of sess ex] show ?thesis
    by (simp add: case_prod_beta)
next
  case (Update ex new)
  obtain q ex' st1 where ad: "apply_delete sess st ex = (q, ex', st1)"
    by (cases "apply_delete sess st ex")
  with apply_delete_keeps [OF assms, of sess ex] have k1: "zone_cache st1 y = Some rows"
    by simp
  show ?thesis
  proof (cases q)
    case (Inl e)
    with Update ad k1 show ?thesis by simp
  next
    case (Inr u)
    with Update ad k1 apply_create_cache [of sess st1 new] show ?thesis
      by (simp add: case_prod_beta)
  qed
qed

lemma apply_changes_keeps:
  "zone_cache st y = Some rows \<Longrightarrow>
     zone_cache (snd (snd (apply_changes sess st cs))) y = Some rows"
proof (induction cs arbitrary: st)
  case Nil
  then show ?case by simp
next
  case (Cons c cs)
  obtain q c' st1 where ac: "apply_change sess st c = (q, c', st1)"
    by (cases "apply_change sess st c")
  with apply_change_keeps [OF Cons.prems, of sess c] have k1: "zone_cache st1 y = Some rows"
    by simp
  show ?case
  proof (cases q)
    case (Inl e)
    with ac k1 show ?thesis by simp
  next
    case (Inr u)
    with ac Cons.IH [OF k1] show ?thesis by (simp add: case_prod_beta)
  qed
qed

lemma apply_changes_append:
  "apply_changes sess st cs1 = (Inr (), cs1', st1) \<Longrightarrow>
     apply_changes sess st (cs1 @ cs2) =
       (fst (apply_changes sess st1 cs2),
        cs1' @ fst (snd (apply_changes sess st1 cs2)),
        snd (snd (apply_changes sess st1 cs2)))"
proof (induction cs1 arbitrary: st cs1')
  case Nil
  then show ?case by simp
next
  case (Cons c cs)
  obtain q c' sa where ac: "apply_change sess st c = (q, c', sa)"
    by (cases "apply_change sess st c")
  obtain q2 cs'' sb where rest: "apply_changes sess sa cs = (q2, cs'', sb)"
    by (cases "apply_changes sess sa cs")
  from Cons.prems ac rest have q: "q = Inr ()" and q2: "q2 = Inr ()"
    and c1: "cs1' = c' # cs''" and sb: "sb = st1"
    by (cases q; simp)+
  from rest q2 sb have "apply_changes sess sa cs = (Inr (), cs'', st1)" by simp
  from Cons.IH [OF this] ac q c1 show ?case by simp
qed

lemma outcome_ok_all:
  "outcome step s xs = Inr () \<longleftrightarrow> (\<forall>a \<in> set (answers step s xs). a = Inr ())"
  by (induction xs arbitrary: s) (auto simp: calls_simps)

lemma create_each_exact:
  "create_each sess st dn ps =
     (outcome (post_step sess dn) st ps,
      after_all (post_step sess dn) st (attempted (post_step sess dn) st ps))"
proof (induction ps arbitrary: st)
  case Nil
  show ?case by (simp add: calls_simps)
next
  case (Cons p ps)
  obtain q st1 where rc: "record_create sess st dn p = (q, st1)"
    by (cases "record_create sess st dn p")
  then have step: "post_step sess dn st p = (q, st1)" by (simp add: post_step_def)
  show ?case
  proof (cases q)
    case (Inl e)
    with rc step show ?thesis by (simp add: calls_simps)
  next
    case (Inr u)
    with rc step Cons.IH [of st1] show ?thesis by (simp add: calls_simps)
  qed
qed

lemma after_all_post:
  "sent (after_all (post_step sess dn) st qs) = sent st @ map (create_request dn) qs"
proof (induction qs arbitrary: st)
  case Nil
  show ?case by (simp add: calls_simps)
next
  case (Cons p qs)
  have "sent (snd (post_step sess dn st p)) = sent st @ [create_request dn p]"
    using record_create_effect [of sess st dn p "fst (record_create sess st dn p)"
        "snd (record_create sess st dn p)"]
    by (simp add: post_step_def)
  with Cons.IH [of "snd (post_step sess dn st p)"] show ?case
    by (simp add: calls_simps)
qed

lemma delete_each_exact:
  "delete_each sess st ex rs =
     (outcome (delete_step sess (butlast (zone_name ex))) st
        (filter (\<lambda>r. name ex = r_source r \<and> rtype ex = r_type r) rs),
      after_all (delete_step sess (butlast (zone_name ex))) st
        (attempted (delete_step sess (butlast (zone_name ex))) st
           (filter (\<lambda>r. name ex = r_source r \<and> rtype ex = r_type r) rs)))"
proof (induction rs arbitrary: st)
  case Nil
  show ?case by (simp add: calls_simps)
next
  case (Cons r rs)
  show ?case
  proof (cases "name ex = r_source r \<and> rtype ex = r_type r")
    case False
    with Cons.IH [of st] show ?thesis by auto
  next
    case True
    obtain q st1 where rd: "record_delete sess st (butlast (zone_name ex)) (r_id r) = (q, st1)"
      by (cases "record_delete sess st (butlast (zone_name ex)) (r_id r)")
    then have step: "delete_step sess (butlast (zone_name ex)) st r = (q, st1)"
      by (simp add: delete_step_def)
    show ?thesis
    proof (cases q)
      case (Inl e)
      with rd step True show ?thesis by (simp add: calls_simps)
    next
      case (Inr u)
      with rd step True Cons.IH [of st1] show ?thesis by (simp add: calls_simps)
    qed
  qed
qed

lemma after_all_delete:
  "sent (after_all (delete_step sess dn) st qs)
     = sent st @ map (\<lambda>r. delete_request dn (r_id r)) qs"
proof (induction qs arbitrary: st)
  case Nil
  show ?case by (simp add: calls_simps)
next
  case (Cons r qs)
  have "sent (snd (delete_step sess dn st r)) = sent st @ [delete_request dn (r_id r)]"
    using record_delete_effect [of sess st dn "r_id r"
        "fst (record_delete sess st dn (r_id r))" "snd (record_delete sess st dn (r_id r))"]
    by (simp add: delete_step_def)
  with Cons.IH [of "snd (delete_step sess dn st r)"] show ?case
    by (simp add: calls_simps)
qed

section \<open>Create, Delete and Update\<close>

text \<open>
  C8. For a record of type A or AAAA the expansion gives one parameter object per value, in
  the order of the values, each with the record's name, ttl and type; for a CNAME it gives
  exactly one. Create sends one POST per parameter object, in that order, and ends at the
  first call that raises: the requests it sends are those of the objects up to and
  including that one, it raises that call's error, and it returns, with every object
  posted, exactly when no call raises. (The generator yields an object only when the loop
  asks for it, so each object yielded has its call.)
\<close>

theorem create_sends_one_request_per_value:
  "(rtype r = ''A'' \<or> rtype r = ''AAAA'' \<longrightarrow> rvalue r = Values vs \<longrightarrow>
      expand r = Inr (map (\<lambda>v. \<lparr>p_target = v, p_source = name r, p_ttl = ttl r,
                                  p_type = rtype r\<rparr>) vs))
   \<and> (rtype r = ''CNAME'' \<longrightarrow> rvalue r = Value v \<longrightarrow>
      expand r = Inr [\<lparr>p_target = v, p_source = name r, p_ttl = ttl r, p_type = rtype r\<rparr>])
   \<and> (expand r = Inr ps \<longrightarrow>
      apply_create sess st r
        = (outcome (post_step sess (butlast (zone_name r))) st ps,
           after_all (post_step sess (butlast (zone_name r))) st
             (attempted (post_step sess (butlast (zone_name r))) st ps))
      \<and> sent (snd (apply_create sess st r))
        = sent st @ map (create_request (butlast (zone_name r)))
            (attempted (post_step sess (butlast (zone_name r))) st ps)
      \<and> (fst (apply_create sess st r) = Inr ())
        = (\<forall>a \<in> set (answers (post_step sess (butlast (zone_name r))) st ps). a = Inr ())
      \<and> (fst (apply_create sess st r) = Inr () \<longrightarrow>
           attempted (post_step sess (butlast (zone_name r))) st ps = ps))"
proof (intro conjI impI)
  assume "rtype r = ''A'' \<or> rtype r = ''AAAA''" and "rvalue r = Values vs"
  then show "expand r = Inr (map (\<lambda>v. \<lparr>p_target = v, p_source = name r, p_ttl = ttl r,
                                  p_type = rtype r\<rparr>) vs)"
    by (auto simp: expand_def params_for_def params_for_multiple_def)
next
  assume "rtype r = ''CNAME''" and "rvalue r = Value v"
  then show "expand r = Inr [\<lparr>p_target = v, p_source = name r, p_ttl = ttl r,
      p_type = rtype r\<rparr>]"
    by (simp add: expand_def params_for_def params_for_generic_def)
next
  assume e: "expand r = Inr ps"
  then have ac: "apply_create sess st r = create_each sess st (butlast (zone_name r)) ps"
    by (simp add: apply_create_def)
  show x: "apply_create sess st r
        = (outcome (post_step sess (butlast (zone_name r))) st ps,
           after_all (post_step sess (butlast (zone_name r))) st
             (attempted (post_step sess (butlast (zone_name r))) st ps))"
    unfolding ac by (rule create_each_exact)
  show "sent (snd (apply_create sess st r))
        = sent st @ map (create_request (butlast (zone_name r)))
            (attempted (post_step sess (butlast (zone_name r))) st ps)"
    unfolding x by (simp add: after_all_post)
  show "(fst (apply_create sess st r) = Inr ())
        = (\<forall>a \<in> set (answers (post_step sess (butlast (zone_name r))) st ps). a = Inr ())"
    unfolding x by (simp add: outcome_ok_all)
  assume "fst (apply_create sess st r) = Inr ()"
  then show "attempted (post_step sess (butlast (zone_name r))) st ps = ps"
    unfolding x by (simp add: outcome_ok_iff attempted_ok)
qed

theorem create_sends_one_request_per_value_witness:
  "expand three_A
     = Inr [\<lparr>p_target = ''1.1.1.1'', p_source = ''www'', p_ttl = 300, p_type = ''A''\<rparr>,
            \<lparr>p_target = ''2.2.2.2'', p_source = ''www'', p_ttl = 300, p_type = ''A''\<rparr>,
            \<lparr>p_target = ''3.3.3.3'', p_source = ''www'', p_ttl = 300, p_type = ''A''\<rparr>]
   \<and> expand www_CNAME
     = Inr [\<lparr>p_target = ''example.com.'', p_source = ''www'', p_ttl = 600, p_type = ''CNAME''\<rparr>]
   \<and> fst (apply_create remote_session (fresh [] []) three_A) = Inr ()
   \<and> sent (snd (apply_create remote_session (fresh [] []) three_A))
     = [create_request ''example.com''
          \<lparr>p_target = ''1.1.1.1'', p_source = ''www'', p_ttl = 300, p_type = ''A''\<rparr>,
        create_request ''example.com''
          \<lparr>p_target = ''2.2.2.2'', p_source = ''www'', p_ttl = 300, p_type = ''A''\<rparr>,
        create_request ''example.com''
          \<lparr>p_target = ''3.3.3.3'', p_source = ''www'', p_ttl = 300, p_type = ''A''\<rparr>]
   \<and> fst (apply_create remote_session (fresh [] [200, 400]) three_A)
     = Inl InfomaniakClientBadRequest
   \<and> sent (snd (apply_create remote_session (fresh [] [200, 400]) three_A))
     = [create_request ''example.com''
          \<lparr>p_target = ''1.1.1.1'', p_source = ''www'', p_ttl = 300, p_type = ''A''\<rparr>,
        create_request ''example.com''
          \<lparr>p_target = ''2.2.2.2'', p_source = ''www'', p_ttl = 300, p_type = ''A''\<rparr>]
   \<and> sent (snd (apply_create remote_session (fresh [] []) www_CNAME))
     = [create_request ''example.com''
          \<lparr>p_target = ''example.com.'', p_source = ''www'', p_ttl = 600, p_type = ''CNAME''\<rparr>]"
  using create_sends_one_request_per_value
      [of three_A "[''1.1.1.1'', ''2.2.2.2'', ''3.3.3.3'']" "''x''"
          "[\<lparr>p_target = ''1.1.1.1'', p_source = ''www'', p_ttl = 300, p_type = ''A''\<rparr>,
            \<lparr>p_target = ''2.2.2.2'', p_source = ''www'', p_ttl = 300, p_type = ''A''\<rparr>,
            \<lparr>p_target = ''3.3.3.3'', p_source = ''www'', p_ttl = 300, p_type = ''A''\<rparr>]"
          remote_session "fresh [] []"]
    create_sends_one_request_per_value
      [of three_A "[''1.1.1.1'', ''2.2.2.2'', ''3.3.3.3'']" "''x''"
          "[\<lparr>p_target = ''1.1.1.1'', p_source = ''www'', p_ttl = 300, p_type = ''A''\<rparr>,
            \<lparr>p_target = ''2.2.2.2'', p_source = ''www'', p_ttl = 300, p_type = ''A''\<rparr>,
            \<lparr>p_target = ''3.3.3.3'', p_source = ''www'', p_ttl = 300, p_type = ''A''\<rparr>]"
          remote_session "fresh [] [200, 400]"]
    create_sends_one_request_per_value
      [of www_CNAME "[]" "''example.com.''"
          "[\<lparr>p_target = ''example.com.'', p_source = ''www'', p_ttl = 600, p_type = ''CNAME''\<rparr>]"
          remote_session "fresh [] []"]
  by (simp add: run_defs vocab_defs)


text \<open>
  C6, as the code has it. The handlers leave every record of a change as it was, with one
  exception: Delete, and the delete half of Update, assign \<^verbatim>\<open>"."\<close> to the name of the
  existing record when that name is the empty string. No other field is written, and the
  new record of a Create or an Update is never written.
\<close>

theorem handlers_write_only_the_apex_name:
  "fst (snd (apply_change sess st c)) =
     (case c of
        Create new \<Rightarrow> Create new
      | Update existing new \<Rightarrow>
          Update (if name existing = '''' then existing\<lparr>name := ''.''\<rparr> else existing) new
      | Delete existing \<Rightarrow>
          Delete (if name existing = '''' then existing\<lparr>name := ''.''\<rparr> else existing))"
proof (cases c)
  case (Create new)
  then show ?thesis by (simp add: case_prod_beta)
next
  case (Delete existing)
  with apply_delete_record [of sess st existing] show ?thesis
    by (simp add: case_prod_beta)
next
  case (Update existing new)
  obtain q ex' st1 where ad: "apply_delete sess st existing = (q, ex', st1)"
    by (cases "apply_delete sess st existing")
  with apply_delete_record [of sess st existing]
  have "ex' = (if name existing = '''' then existing\<lparr>name := ''.''\<rparr> else existing)"
    by simp
  with Update ad show ?thesis
    by (cases q) (simp_all add: case_prod_beta)
qed

theorem handlers_write_only_the_apex_name_witness:
  "fst (snd (apply_change remote_session (fresh [apex_row] []) (Update apex_A www_A)))
     = Update (apex_A\<lparr>name := ''.''\<rparr>) www_A
   \<and> fst (snd (apply_change remote_session (fresh [apex_row] []) (Delete www_A))) = Delete www_A"
  using handlers_write_only_the_apex_name [of remote_session "fresh [apex_row] []" "Update apex_A www_A"]
    handlers_write_only_the_apex_name [of remote_session "fresh [apex_row] []" "Delete www_A"]
  by (simp add: www_A_def apex_A_def)

text \<open>
  C6 as stated fails for a Delete at the apex: the record the caller passed with the name
  \<^verbatim>\<open>""\<close> comes back with the name \<^verbatim>\<open>"."\<close>.
\<close>

theorem delete_renames_apex_record_counterexample:
  "name apex_A = ''''
   \<and> fst (snd (apply_change remote_session (fresh [apex_row] []) (Delete apex_A)))
       = Delete (apex_A\<lparr>name := ''.''\<rparr>)
   \<and> fst (snd (apply_change remote_session (fresh [apex_row] []) (Delete apex_A)))
       \<noteq> Delete apex_A"
  by (simp add: run_defs case_prod_beta)


text \<open>
  C7, as the code has it. Populate: the records offered to the zone container are the
  candidates of the rows, in order, and the container takes them up to the first one that
  \<^verbatim>\<open>Record.new\<close> or \<^verbatim>\<open>add_record\<close> refuses. Every row of a supported type whose source is
  \<^verbatim>\<open>"."\<close> has its candidate under the name \<^verbatim>\<open>""\<close> with the row's type, no candidate has the
  name \<^verbatim>\<open>"."\<close>, and when nothing is refused every such row has its record in the zone.
  Delete: for an existing record named \<^verbatim>\<open>""\<close> the handler, after the cache access, sends
  the DELETE of each cached row whose source is \<^verbatim>\<open>"."\<close> and whose type is the record's, by
  id and in order, and ends at the first call that raises: it sends the requests up to and
  including that one and raises its error, and it returns, with all of them sent, exactly
  when no call raises.
\<close>

theorem apex_is_translated_both_ways:
  "(zone_records sess st z = (Inr rows, st1) \<longrightarrow>
      added (fst (populate sess cont st z zone))
        = take (accepted cont zone (candidates rows)) (candidates rows)
      \<and> (\<forall>r \<in> set rows. r_source r = ''.'' \<and> r_type r \<in> SUPPORTS \<longrightarrow>
           (\<exists>a \<in> set (candidates rows). nr_name a = '''' \<and> d_type (nr_data a) = r_type r))
      \<and> (\<forall>a \<in> set (candidates rows). nr_name a \<noteq> ''.'')
      \<and> (outcome cont zone (candidates rows) = Inr () \<longrightarrow>
           (\<forall>r \<in> set rows. r_source r = ''.'' \<and> r_type r \<in> SUPPORTS \<longrightarrow>
              (\<exists>a \<in> set (added (fst (populate sess cont st z zone))).
                 nr_name a = '''' \<and> d_type (nr_data a) = r_type r))))
   \<and> (name existing = '''' \<longrightarrow>
      zone_records sess st (zone_name existing) = (Inr rows, st1) \<longrightarrow>
      apply_delete sess st existing
        = (outcome (delete_step sess (butlast (zone_name existing))) st1
             (filter (\<lambda>r. r_source r = ''.'' \<and> r_type r = rtype existing) rows),
           existing\<lparr>name := ''.''\<rparr>,
           after_all (delete_step sess (butlast (zone_name existing))) st1
             (attempted (delete_step sess (butlast (zone_name existing))) st1
                (filter (\<lambda>r. r_source r = ''.'' \<and> r_type r = rtype existing) rows)))
      \<and> sent (snd (snd (apply_delete sess st existing)))
        = sent st1 @ map (\<lambda>r. delete_request (butlast (zone_name existing)) (r_id r))
            (attempted (delete_step sess (butlast (zone_name existing))) st1
               (filter (\<lambda>r. r_source r = ''.'' \<and> r_type r = rtype existing) rows))
      \<and> (fst (apply_delete sess st existing) = Inr ())
        = (\<forall>a \<in> set (answers (delete_step sess (butlast (zone_name existing))) st1
               (filter (\<lambda>r. r_source r = ''.'' \<and> r_type r = rtype existing) rows)).
             a = Inr ())
      \<and> (fst (apply_delete sess st existing) = Inr () \<longrightarrow>
           attempted (delete_step sess (butlast (zone_name existing))) st1
             (filter (\<lambda>r. r_source r = ''.'' \<and> r_type r = rtype existing) rows)
           = filter (\<lambda>r. r_source r = ''.'' \<and> r_type r = rtype existing) rows))"
proof (intro conjI impI)
  assume zr: "zone_records sess st z = (Inr rows, st1)"
  show a: "added (fst (populate sess cont st z zone))
        = take (accepted cont zone (candidates rows)) (candidates rows)"
    using populate_added [OF zr, of cont zone] by simp
  show c: "\<forall>r \<in> set rows. r_source r = ''.'' \<and> r_type r \<in> SUPPORTS \<longrightarrow>
           (\<exists>a \<in> set (candidates rows). nr_name a = '''' \<and> d_type (nr_data a) = r_type r)"
  proof (intro ballI impI)
    fix r
    assume r: "r \<in> set rows" and s: "r_source r = ''.'' \<and> r_type r \<in> SUPPORTS"
    from candidates_of_row [OF r] s
    show "\<exists>a \<in> set (candidates rows). nr_name a = '''' \<and> d_type (nr_data a) = r_type r"
      by (simp add: apex_name_def)
  qed
  show "\<forall>a \<in> set (candidates rows). nr_name a \<noteq> ''.''"
    by (blast dest: candidates_not_dot)
  assume "outcome cont zone (candidates rows) = Inr ()"
  then have "accepted cont zone (candidates rows) = length (candidates rows)"
    by (simp add: outcome_ok_iff)
  with a have "added (fst (populate sess cont st z zone)) = candidates rows" by simp
  with c show "\<forall>r \<in> set rows. r_source r = ''.'' \<and> r_type r \<in> SUPPORTS \<longrightarrow>
      (\<exists>a \<in> set (added (fst (populate sess cont st z zone))).
         nr_name a = '''' \<and> d_type (nr_data a) = r_type r)"
    by simp
next
  assume n: "name existing = ''''"
    and zr: "zone_records sess st (zone_name existing) = (Inr rows, st1)"
  define ex where "ex = existing\<lparr>name := ''.''\<rparr>"
  define ts where "ts = filter (\<lambda>r. r_source r = ''.'' \<and> r_type r = rtype existing) rows"
  define del where "del = delete_step sess (butlast (zone_name existing))"
  have zn: "zone_name ex = zone_name existing" and nm: "name ex = ''.''"
    and ty: "rtype ex = rtype existing"
    by (simp_all add: ex_def)
  have f: "filter (\<lambda>r. name ex = r_source r \<and> rtype ex = r_type r) rows = ts"
    unfolding nm ty ts_def by (rule filter_cong) auto
  have "apply_delete sess st existing
      = (fst (delete_each sess st1 ex rows), ex, snd (delete_each sess st1 ex rows))"
    using n zr by (simp add: apply_delete_def Let_def ex_def [symmetric] zn case_prod_beta)
  with delete_each_exact [of sess st1 ex rows]
  have x: "apply_delete sess st existing
      = (outcome del st1 ts, ex, after_all del st1 (attempted del st1 ts))"
    by (simp add: f zn del_def)
  show "apply_delete sess st existing
        = (outcome (delete_step sess (butlast (zone_name existing))) st1
             (filter (\<lambda>r. r_source r = ''.'' \<and> r_type r = rtype existing) rows),
           existing\<lparr>name := ''.''\<rparr>,
           after_all (delete_step sess (butlast (zone_name existing))) st1
             (attempted (delete_step sess (butlast (zone_name existing))) st1
                (filter (\<lambda>r. r_source r = ''.'' \<and> r_type r = rtype existing) rows)))"
    using x by (simp add: ex_def ts_def del_def)
  show "sent (snd (snd (apply_delete sess st existing)))
        = sent st1 @ map (\<lambda>r. delete_request (butlast (zone_name existing)) (r_id r))
            (attempted (delete_step sess (butlast (zone_name existing))) st1
               (filter (\<lambda>r. r_source r = ''.'' \<and> r_type r = rtype existing) rows))"
    using x by (simp add: after_all_delete ts_def del_def)
  show "(fst (apply_delete sess st existing) = Inr ())
        = (\<forall>a \<in> set (answers (delete_step sess (butlast (zone_name existing))) st1
               (filter (\<lambda>r. r_source r = ''.'' \<and> r_type r = rtype existing) rows)).
             a = Inr ())"
    using x outcome_ok_all [of del st1 ts] by (simp add: ts_def del_def)
  assume "fst (apply_delete sess st existing) = Inr ()"
  with x have "outcome del st1 ts = Inr ()" by simp
  then have "attempted del st1 ts = ts"
    by (simp add: outcome_ok_iff attempted_ok)
  then show "attempted (delete_step sess (butlast (zone_name existing))) st1
             (filter (\<lambda>r. r_source r = ''.'' \<and> r_type r = rtype existing) rows)
           = filter (\<lambda>r. r_source r = ''.'' \<and> r_type r = rtype existing) rows"
    by (simp add: ts_def del_def)
qed

theorem apex_is_translated_both_ways_witness:
  "zone_records remote_session (fresh [apex_row, mx_row, apex_row2] []) ''example.com.''
     = (Inr [apex_row, mx_row, apex_row2],
        snd (zone_records remote_session (fresh [apex_row, mx_row, apex_row2] [])
          ''example.com.''))
   \<and> outcome zone_add [] (candidates [apex_row, mx_row, apex_row2]) = Inr ()
   \<and> added (fst (populate remote_session zone_add
        (fresh [apex_row, mx_row, apex_row2] []) ''example.com.'' []))
     = [\<lparr>nr_name = '''', nr_data = \<lparr>d_ttl = 300, d_type = ''A'', d_value = ''1.1.1.1''\<rparr>\<rparr>]
   \<and> name apex_A = ''''
   \<and> fst (apply_delete remote_session (fresh [apex_row, mx_row, apex_row2] []) apex_A)
     = Inr ()
   \<and> sent (snd (snd (apply_delete remote_session
        (fresh [apex_row, mx_row, apex_row2] []) apex_A)))
     = [fetch_request ''example.com'', delete_request ''example.com'' ''7'',
        delete_request ''example.com'' ''10'']
   \<and> fst (apply_delete remote_session (fresh [apex_row, mx_row, apex_row2] [200, 500]) apex_A)
     = Inl (HTTPError 500)
   \<and> sent (snd (snd (apply_delete remote_session
        (fresh [apex_row, mx_row, apex_row2] [200, 500]) apex_A)))
     = [fetch_request ''example.com'', delete_request ''example.com'' ''7'']"
proof -
  have h: "zone_records remote_session (fresh [apex_row, mx_row, apex_row2] []) ''example.com.''
      = (Inr [apex_row, mx_row, apex_row2],
         snd (zone_records remote_session (fresh [apex_row, mx_row, apex_row2] [])
           ''example.com.''))"
    by (simp add: run_defs)
  have h1: "zone_records remote_session (fresh [apex_row, mx_row, apex_row2] [])
        (zone_name apex_A)
      = (Inr [apex_row, mx_row, apex_row2],
         snd (zone_records remote_session (fresh [apex_row, mx_row, apex_row2] [])
           ''example.com.''))"
    by (simp add: run_defs)
  have h2: "zone_records remote_session (fresh [apex_row, mx_row, apex_row2] [200, 500])
        (zone_name apex_A)
      = (Inr [apex_row, mx_row, apex_row2],
         snd (zone_records remote_session (fresh [apex_row, mx_row, apex_row2] [200, 500])
           ''example.com.''))"
    by (simp add: run_defs)
  have n: "name apex_A = ''''"
    by (simp add: apex_A_def)
  note run = apex_is_translated_both_ways
      [of remote_session "fresh [apex_row, mx_row, apex_row2] []" "''example.com.''"
          "[apex_row, mx_row, apex_row2]"
          "snd (zone_records remote_session (fresh [apex_row, mx_row, apex_row2] [])
             ''example.com.'')"
          zone_add "[]" apex_A]
  note failing = apex_is_translated_both_ways
      [of remote_session "fresh [apex_row, mx_row, apex_row2] [200, 500]" "''example.com.''"
          "[apex_row, mx_row, apex_row2]"
          "snd (zone_records remote_session (fresh [apex_row, mx_row, apex_row2] [200, 500])
             ''example.com.'')"
          zone_add "[]" apex_A]
  note taken = run [THEN conjunct1, THEN mp, OF h, THEN conjunct1]
  note deletes = run [THEN conjunct2, THEN mp, OF n, THEN mp, OF h1, THEN conjunct2, THEN conjunct1]
  note stopped = failing [THEN conjunct2, THEN mp, OF n, THEN mp, OF h2, THEN conjunct1]
  note partial = failing [THEN conjunct2, THEN mp, OF n, THEN mp, OF h2, THEN conjunct2,
      THEN conjunct1]
  show ?thesis
    using taken deletes stopped partial
    by (simp add: run_defs vocab_defs case_prod_beta)
qed

text \<open>
  C7 as stated fails for a row at the apex whose type is not supported: the only row of the
  zone has the source \<^verbatim>\<open>"."\<close> and the type MX, populate returns, and no record, under any
  name, is handed to the zone.
\<close>

theorem unsupported_apex_row_has_no_record_counterexample:
  "r_source mx_row = ''.''
   \<and> fst (zone_records remote_session (fresh [mx_row] []) ''example.com.'') = Inr [mx_row]
   \<and> ret (fst (populate remote_session zone_add (fresh [mx_row] []) ''example.com.'' []))
       = Inr True
   \<and> added (fst (populate remote_session zone_add (fresh [mx_row] []) ''example.com.'' []))
       = []
   \<and> zone_after (fst (populate remote_session zone_add (fresh [mx_row] []) ''example.com.'' []))
       = []"
  by (simp add: run_defs)

section \<open>Apply and the cache\<close>

lemma cached_provider_eq:
  "cached_provider =
     \<lparr>zone_cache = [''example.com.'' \<mapsto> [apex_row]],
      remote = \<lparr>stored = [apex_row], next_id = 1, scripted = [200, 400]\<rparr>,
      sent = [fetch_request ''example.com'', fetch_request ''example.com'']\<rparr>"
  by (simp add: cached_provider_def run_defs)

text \<open>
  C2, as the code has it. When the handler of a change raises after the changes before it
  were applied, apply raises the same error in the state that handler left: the changes
  after it are not attempted and nothing is undone. The pop of the zone's cache entry is not
  reached: an entry present before apply is still there with the same rows. The entry is
  dropped when every handler returns.
\<close>

theorem failed_apply_leaves_cache_entry:
  "(apply_changes sess st cs1 = (Inr (), cs1', st1) \<longrightarrow>
    apply_change sess st1 c = (Inl e, c', st2) \<longrightarrow>
      apply_plan sess st \<lparr>desired_name = z, changes = cs1 @ c # cs2\<rparr>
        = (Inl e, cs1' @ c' # cs2, st2)
      \<and> (\<forall>rows. zone_cache st z = Some rows \<longrightarrow> zone_cache st2 z = Some rows))
   \<and> (fst (apply_changes sess st cs) = Inr () \<longrightarrow>
      fst (apply_plan sess st \<lparr>desired_name = z, changes = cs\<rparr>) = Inr ()
      \<and> zone_cache (snd (snd (apply_plan sess st \<lparr>desired_name = z, changes = cs\<rparr>))) z = None)"
proof (intro conjI impI allI)
  assume a1: "apply_changes sess st cs1 = (Inr (), cs1', st1)"
    and a2: "apply_change sess st1 c = (Inl e, c', st2)"
  from a2 have "apply_changes sess st1 (c # cs2) = (Inl e, c' # cs2, st2)" by simp
  with apply_changes_append [OF a1, of "c # cs2"]
  have "apply_changes sess st (cs1 @ c # cs2) = (Inl e, cs1' @ c' # cs2, st2)" by simp
  then show "apply_plan sess st \<lparr>desired_name = z, changes = cs1 @ c # cs2\<rparr>
        = (Inl e, cs1' @ c' # cs2, st2)"
    by (simp add: apply_plan_def)
  fix rows
  assume "zone_cache st z = Some rows"
  from apply_changes_keeps [OF this, of sess cs1] a1 have "zone_cache st1 z = Some rows"
    by simp
  from apply_change_keeps [OF this, of sess c] a2 show "zone_cache st2 z = Some rows"
    by simp
next
  assume ok: "fst (apply_changes sess st cs) = Inr ()"
  obtain q cs' st' where ac: "apply_changes sess st cs = (q, cs', st')"
    by (cases "apply_changes sess st cs")
  with ok have "q = Inr ()" by simp
  with ac show "fst (apply_plan sess st \<lparr>desired_name = z, changes = cs\<rparr>) = Inr ()"
    and "zone_cache (snd (snd (apply_plan sess st \<lparr>desired_name = z, changes = cs\<rparr>))) z = None"
    by (simp_all add: apply_plan_def)
qed

theorem failed_apply_leaves_cache_entry_witness:
  "apply_changes remote_session cached_provider [Create www_CNAME]
     = (Inr (), [Create www_CNAME], after_cname)
   \<and> apply_change remote_session after_cname (Create www_A)
     = (Inl InfomaniakClientBadRequest, Create www_A, after_failure)
   \<and> zone_cache cached_provider ''example.com.'' = Some [apex_row]
   \<and> apply_plan remote_session cached_provider
        \<lparr>desired_name = ''example.com.'',
         changes = [Create www_CNAME] @ Create www_A # [Delete apex_A]\<rparr>
     = (Inl InfomaniakClientBadRequest,
        [Create www_CNAME] @ Create www_A # [Delete apex_A], after_failure)
   \<and> zone_cache after_failure ''example.com.'' = Some [apex_row]
   \<and> fst (apply_changes remote_session (fresh [] []) [Create www_A]) = Inr ()
   \<and> zone_cache (snd (snd (apply_plan remote_session (fresh [] [])
        \<lparr>desired_name = ''example.com.'', changes = [Create www_A]\<rparr>))) ''example.com.'' = None"
proof -
  have h1: "apply_changes remote_session cached_provider [Create www_CNAME]
     = (Inr (), [Create www_CNAME], after_cname)"
    by (simp add: after_cname_def cached_provider_eq run_defs case_prod_beta)
  have h2: "apply_change remote_session after_cname (Create www_A)
     = (Inl InfomaniakClientBadRequest, Create www_A, after_failure)"
    by (simp add: after_failure_def after_cname_def cached_provider_eq run_defs case_prod_beta)
  have h3: "fst (apply_changes remote_session (fresh [] []) [Create www_A]) = Inr ()"
    by (simp add: run_defs case_prod_beta)
  have c: "zone_cache cached_provider ''example.com.'' = Some [apex_row]"
    by (simp add: cached_provider_eq)
  show ?thesis
    using failed_apply_leaves_cache_entry
      [of remote_session cached_provider "[Create www_CNAME]" "[Create www_CNAME]"
          after_cname "Create www_A" InfomaniakClientBadRequest "Create www_A" after_failure
          "''example.com.''" "[Delete apex_A]" "[]"]
      failed_apply_leaves_cache_entry
      [of remote_session "fresh [] []" "[]" "[]" "fresh [] []"
          "Create www_A" InfomaniakClientBadRequest "Create www_A" "fresh [] []"
          "''example.com.''" "[]" "[Create www_A]"]
      h1 h2 h3 c
    by blast
qed

text \<open>
  C2 as stated fails in its second half. The provider has the zone cached; the second
  change of the plan fails on its first call. Apply raises, the CNAME created before is on
  the remote side, the Delete after is not sent, and the cache entry of the zone is still
  the list fetched before the apply, which the next cache access returns as it is.
\<close>

theorem failed_apply_keeps_stale_entry_counterexample:
  "fst (apply_plan remote_session cached_provider failing_plan) = Inl InfomaniakClientBadRequest
   \<and> zone_cache (snd (snd (apply_plan remote_session cached_provider failing_plan)))
       ''example.com.'' = Some [apex_row]
   \<and> stored (remote (snd (snd (apply_plan remote_session cached_provider failing_plan))))
       = [apex_row,
          \<lparr>r_id = ''1'', r_source = ''www'', r_type = ''CNAME'', r_ttl = 600,
            r_target = ''example.com.''\<rparr>]
   \<and> map req_method (sent (snd (snd (apply_plan remote_session cached_provider failing_plan))))
       = [GET, GET, POST, POST]
   \<and> fst (zone_records remote_session
        (snd (snd (apply_plan remote_session cached_provider failing_plan))) ''example.com.'')
       = Inr [apex_row]"
  by (simp add: cached_provider_eq failing_plan_def run_defs case_prod_beta)

section \<open>Two runs where the code departs from the specification\<close>

text \<open>
  C1 at a concrete record. Create of an A record with the two values 1.1.1.1 and 2.2.2.2
  stores two rows on the remote side; the populate that follows hands the zone one record
  whose data carries the single value 1.1.1.1, the target of the first row of the group.
  The ttl comes back, the second value does not.
\<close>

theorem create_then_populate_keeps_first_value_only:
  "fst (apply_plan remote_session (fresh [] []) plan_www_A) = Inr ()
   \<and> rvalue www_A = Values [''1.1.1.1'', ''2.2.2.2'']
   \<and> stored (remote (snd (snd (apply_plan remote_session (fresh [] []) plan_www_A))))
       = [\<lparr>r_id = ''1'', r_source = ''www'', r_type = ''A'', r_ttl = 300, r_target = ''1.1.1.1''\<rparr>,
          \<lparr>r_id = ''2'', r_source = ''www'', r_type = ''A'', r_ttl = 300, r_target = ''2.2.2.2''\<rparr>]
   \<and> populate remote_session zone_add
        (snd (snd (apply_plan remote_session (fresh [] []) plan_www_A))) ''example.com.'' []
       = (\<lparr>ret = Inr True,
           added = [\<lparr>nr_name = ''www'',
                     nr_data = \<lparr>d_ttl = 300, d_type = ''A'', d_value = ''1.1.1.1''\<rparr>\<rparr>],
           warnings = [],
           zone_after = [\<lparr>nr_name = ''www'',
                     nr_data = \<lparr>d_ttl = 300, d_type = ''A'', d_value = ''1.1.1.1''\<rparr>\<rparr>]\<rparr>,
          snd (populate remote_session zone_add
            (snd (snd (apply_plan remote_session (fresh [] []) plan_www_A))) ''example.com.'' []))
   \<and> map values_of (added (fst (populate remote_session zone_add
        (snd (snd (apply_plan remote_session (fresh [] []) plan_www_A))) ''example.com.'' [])))
       = [[''1.1.1.1'']]
   \<and> set [''1.1.1.1''] \<noteq> set [''1.1.1.1'', ''2.2.2.2'']"
  by (simp add: plan_www_A_def run_defs values_of_def case_prod_beta)

lemma warm_provider_eq:
  "warm_provider =
     \<lparr>zone_cache = [''example.com.'' \<mapsto> [apex_row]],
      remote = \<lparr>stored = [apex_row], next_id = 1, scripted = []\<rparr>,
      sent = [fetch_request ''example.com'', fetch_request ''example.com'']\<rparr>"
  by (simp add: warm_provider_def run_defs)

text \<open>
  C4 at a concrete run. The zone is cached; an apply on it drops the entry; the populate
  that follows sends the fetch twice, once for the cache and once for the count in its
  log message; a further populate, with the zone cached again, sends the fetch once more.
\<close>

theorem populate_fetches_outside_the_cache:
  "zone_cache warm_provider ''example.com.'' = Some [apex_row]
   \<and> fst (apply_plan remote_session warm_provider plan_www_A) = Inr ()
   \<and> zone_cache (snd (snd (apply_plan remote_session warm_provider plan_www_A)))
       ''example.com.'' = None
   \<and> sent (snd (populate remote_session zone_add
        (snd (snd (apply_plan remote_session warm_provider plan_www_A))) ''example.com.'' []))
     = sent (snd (snd (apply_plan remote_session warm_provider plan_www_A)))
       @ [fetch_request ''example.com'', fetch_request ''example.com'']
   \<and> zone_cache (snd (populate remote_session zone_add
        (snd (snd (apply_plan remote_session warm_provider plan_www_A))) ''example.com.'' []))
       ''example.com.'' \<noteq> None
   \<and> sent (snd (populate remote_session zone_add
        (snd (populate remote_session zone_add
          (snd (snd (apply_plan remote_session warm_provider plan_www_A))) ''example.com.'' []))
        ''example.com.'' []))
     = sent (snd (populate remote_session zone_add
        (snd (snd (apply_plan remote_session warm_provider plan_www_A))) ''example.com.'' []))
       @ [fetch_request ''example.com'']"
  by (simp add: warm_provider_eq plan_www_A_def run_defs case_prod_beta)

end
